theory Spec2Isabelle
  imports Complex_Main
begin

section \<open>Python values used by the environments\<close>

text \<open>
  The exceptions that the modelled code can raise. Every raise of the source is an
  \<open>Inl\<close> result of the model.
\<close>

datatype error = IndexError | UnboundLocalError | ZeroDivisionError | ValueError | KeyError

text \<open>Sequencing of fallible pure computations: the first exception wins.\<close>

definition and_then :: "error + 'a \<Rightarrow> ('a \<Rightarrow> error + 'b) \<Rightarrow> error + 'b" where
  "and_then r f = (case r of Inl err \<Rightarrow> Inl err | Inr x \<Rightarrow> f x)"

text \<open>
  Sequencing of computations on a mutable object: a computation returns its result (or
  the exception it raised) together with the object as it is afterwards, so that the
  mutations made before a raise are kept, as in Python.
\<close>

definition seq :: "(error + 'a) \<times> 's \<Rightarrow> ('a \<Rightarrow> 's \<Rightarrow> (error + 'b) \<times> 's) \<Rightarrow> (error + 'b) \<times> 's" where
  "seq r f = (case r of (Inl err, s) \<Rightarrow> (Inl err, s) | (Inr x, s) \<Rightarrow> f x s)"

text \<open>
  Indexing a Python list or a numpy axis of length \<open>n\<close> with the integer \<open>i\<close>:
  a negative index counts from the end, anything else out of range raises IndexError.
\<close>

definition py_index :: "nat \<Rightarrow> int \<Rightarrow> error + nat" where
  "py_index n i =
     (if 0 \<le> i \<and> i < int n then Inr (nat i)
      else if - int n \<le> i \<and> i < 0 then Inr (nat (int n + i))
      else Inl IndexError)"

text \<open>\<open>a[x][y]\<close> on a list of lists (or a 2-D array).\<close>

definition get2 :: "'a list list \<Rightarrow> int \<Rightarrow> int \<Rightarrow> error + 'a" where
  "get2 a x y =
     and_then (py_index (length a) x) (\<lambda>i.
     and_then (py_index (length (a ! i)) y) (\<lambda>j. Inr (a ! i ! j)))"

text \<open>
  A Python \<open>float\<close> (and a numpy \<open>float64\<close>): a finite value, an infinity or NaN.
  Finite values are taken as real numbers: rounding, overflow to infinity and the sign of
  zero are not modelled.
\<close>

datatype pyfloat = Fin real | PInf | NInf | NaN

text \<open>\<open>a == b\<close> on floats: NaN is equal to nothing, not even to itself.\<close>

definition py_eq :: "pyfloat \<Rightarrow> pyfloat \<Rightarrow> bool" where
  "py_eq a b = (a \<noteq> NaN \<and> b \<noteq> NaN \<and> a = b)"

text \<open>The guard \<open>if reward == float("Nan"): reward = 0\<close> of the \<open>step\<close> methods.\<close>

definition nan_guard :: "pyfloat \<Rightarrow> pyfloat" where
  "nan_guard reward = (if py_eq reward NaN then Fin 0 else reward)"


text \<open>The infinity with the sign of \<open>a\<close>; NaN when \<open>a\<close> is zero.\<close>

definition inf_signed :: "real \<Rightarrow> pyfloat" where
  "inf_signed a = (if a = 0 then NaN else if 0 < a then PInf else NInf)"

fun fadd :: "pyfloat \<Rightarrow> pyfloat \<Rightarrow> pyfloat" where
  "fadd (Fin a) (Fin b) = Fin (a + b)"
| "fadd NaN _ = NaN"
| "fadd _ NaN = NaN"
| "fadd PInf NInf = NaN"
| "fadd NInf PInf = NaN"
| "fadd PInf _ = PInf"
| "fadd _ PInf = PInf"
| "fadd NInf _ = NInf"
| "fadd _ NInf = NInf"

fun fneg :: "pyfloat \<Rightarrow> pyfloat" where
  "fneg (Fin a) = Fin (- a)"
| "fneg PInf = NInf"
| "fneg NInf = PInf"
| "fneg NaN = NaN"

definition fsub :: "pyfloat \<Rightarrow> pyfloat \<Rightarrow> pyfloat" where
  "fsub a b = fadd a (fneg b)"

text \<open>\<open>x * k\<close> for a finite factor \<open>k\<close>.\<close>

fun fscale :: "real \<Rightarrow> pyfloat \<Rightarrow> pyfloat" where
  "fscale k (Fin a) = Fin (k * a)"
| "fscale k PInf = inf_signed k"
| "fscale k NInf = inf_signed (- k)"
| "fscale k NaN = NaN"

text \<open>
  numpy's elementwise \<open>x / d\<close> for a finite divisor \<open>d\<close>: division by zero gives an
  infinity or NaN (and a warning), never an exception.
\<close>

fun np_div :: "pyfloat \<Rightarrow> real \<Rightarrow> pyfloat" where
  "np_div (Fin a) d = (if d = 0 then inf_signed a else Fin (a / d))"
| "np_div PInf d = (if d < 0 then NInf else PInf)"
| "np_div NInf d = (if d < 0 then PInf else NInf)"
| "np_div NaN d = NaN"

text \<open>\<open>np.log\<close> on a finite value: minus infinity at zero, NaN below.\<close>

definition np_log :: "real \<Rightarrow> pyfloat" where
  "np_log x = (if 0 < x then Fin (ln x) else if x = 0 then NInf else NaN)"

text \<open>\<open>math.log\<close> on an integer: a ValueError outside its domain.\<close>

definition math_log :: "int \<Rightarrow> error + real" where
  "math_log n = (if n \<le> 0 then Inl ValueError else Inr (ln (of_int n)))"

text \<open>Python's \<open>a / b\<close> on integers and on finite floats.\<close>

definition py_truediv :: "int \<Rightarrow> int \<Rightarrow> error + real" where
  "py_truediv a b = (if b = 0 then Inl ZeroDivisionError else Inr (of_int a / of_int b))"

definition py_fdiv :: "real \<Rightarrow> real \<Rightarrow> error + real" where
  "py_fdiv a b = (if b = 0 then Inl ZeroDivisionError else Inr (a / b))"

subsection \<open>Arrays\<close>

text \<open>
  A 2-D array is the list of its rows along the first axis (here the columns of the
  grid, indexed by x); a 3-D array is the list of its channels.
\<close>

definition row_len :: "'a list list \<Rightarrow> nat" where
  "row_len a = (case a of [] \<Rightarrow> 0 | r # _ \<Rightarrow> length r)"

definition shape_of :: "'a list list \<Rightarrow> nat \<times> nat" where
  "shape_of a = (length a, row_len a)"

text \<open>\<open>np.asarray\<close> of a list of lists: a ragged list has no shape.\<close>

definition np_asarray :: "'a list list \<Rightarrow> error + 'a list list" where
  "np_asarray a = (if list_all (\<lambda>r. length r = row_len a) a then Inr a else Inl ValueError)"

definition zeros2 :: "nat \<times> nat \<Rightarrow> pyfloat list list" where
  "zeros2 sh = replicate (fst sh) (replicate (snd sh) (Fin 0))"

definition zeros3 :: "nat \<Rightarrow> nat \<times> nat \<Rightarrow> pyfloat list list list" where
  "zeros3 k sh = replicate k (zeros2 sh)"

text \<open>\<open>a[x][y] = v\<close> and \<open>a[k][x][y] = v\<close>.\<close>

definition set2 :: "'a list list \<Rightarrow> int \<Rightarrow> int \<Rightarrow> 'a \<Rightarrow> error + 'a list list" where
  "set2 a x y v =
     and_then (py_index (length a) x) (\<lambda>i.
     and_then (py_index (length (a ! i)) y) (\<lambda>j. Inr (a[i := (a ! i)[j := v]])))"

definition set3 :: "'a list list list \<Rightarrow> int \<Rightarrow> int \<Rightarrow> int \<Rightarrow> 'a \<Rightarrow> error + 'a list list list" where
  "set3 a k x y v =
     and_then (py_index (length a) k) (\<lambda>c.
     and_then (set2 (a ! c) x y v) (\<lambda>ch. Inr (a[c := ch])))"

text \<open>
  \<open>np.stack\<close> of 2-D arrays and \<open>np.concatenate(.., 0)\<close> of 3-D arrays: the channels
  must all have one shape.
\<close>

definition np_stack :: "'a list list list \<Rightarrow> error + 'a list list list" where
  "np_stack chans =
     (case chans of
        [] \<Rightarrow> Inl ValueError
      | a # rest \<Rightarrow>
          if list_all (\<lambda>b. shape_of b = shape_of a) rest then Inr chans else Inl ValueError)"

definition np_concatenate :: "'a list list list list \<Rightarrow> error + 'a list list list" where
  "np_concatenate parts = (if parts = [] then Inl ValueError else np_stack (concat parts))"

text \<open>Elementwise operations on 2-D arrays.\<close>

definition map_2d :: "('a \<Rightarrow> 'b) \<Rightarrow> 'a list list \<Rightarrow> 'b list list" where
  "map_2d f a = map (map f) a"

definition zip_2d :: "('a \<Rightarrow> 'b \<Rightarrow> 'c) \<Rightarrow> 'a list list \<Rightarrow> 'b list list \<Rightarrow> 'c list list" where
  "zip_2d f a b = map (\<lambda>(r, s). map (\<lambda>(x, y). f x y) (zip r s)) (zip a b)"

text \<open>A \<open>for\<close> loop over a list whose body can raise and updates the loop state.\<close>

fun for_each :: "('a \<Rightarrow> 's \<Rightarrow> (error + unit) \<times> 's) \<Rightarrow> 'a list \<Rightarrow> 's \<Rightarrow> (error + unit) \<times> 's" where
  "for_each body [] s = (Inr (), s)"
| "for_each body (x # xs) s = seq (body x s) (\<lambda>_. for_each body xs)"

text \<open>A pure fallible step inside a loop body or a method: the state is untouched.\<close>

definition pure :: "error + 'a \<Rightarrow> 's \<Rightarrow> (error + 'a) \<times> 's" where
  "pure r s = (r, s)"

section \<open>The game state and the shared base environment\<close>

definition GRID_WIDTH :: int where "GRID_WIDTH = 28"
definition GRID_HEIGHT :: int where "GRID_HEIGHT = 31"

type_synonym pos = "int \<times> int"

text \<open>
  The fields of the external \<open>GameState\<close> that the environments read or write:
  \<open>grid\<close>, \<open>pacbot.pos\<close>, the ghosts' \<open>pos["current"]\<close>, \<open>score\<close>, \<open>play\<close>,
  \<open>lives\<close>, and the results of the queries \<open>is_frightened()\<close>, \<open>state()\<close> and
  \<open>frightened_counter()\<close>. Whatever else the engine keeps (ghost paths, timers, its
  random generator) is the field \<open>engine\<close>, which the environments never look at.
\<close>

record 'h GameState =
  grid :: "int list list"
  pacbot_pos :: pos
  red_current :: pos
  pink_current :: pos
  orange_current :: pos
  blue_current :: pos
  score :: int
  play :: bool
  lives :: int
  is_frightened :: bool
  ghost_state :: int
  frightened_counter :: int
  engine :: 'h

text \<open>
  \<open>BasePacmanGym\<close>: the fields of \<open>self\<close> that the modelled methods use. The variants
  extend this record as the subclasses extend the class. Rendering only paints a surface
  and is left out.
\<close>

record 'h BasePacmanGym =
  game_state :: "'h GameState"
  last_score :: int
  ticks_per_step :: int

text \<open>
  The chain of \<open>if\<close> statements of \<open>move_one_cell\<close> that assigns \<open>new_pos\<close>.
  \<open>None\<close> is the local variable still unbound.
\<close>

definition new_pos_of :: "pos \<Rightarrow> int \<Rightarrow> pos option" where
  "new_pos_of old_pos action =
     (let n0 = (if action = 0 then Some (fst old_pos, snd old_pos) else None);
          n1 = (if action = 1 then Some (fst old_pos, min (snd old_pos + 1) (GRID_HEIGHT - 1)) else n0);
          n2 = (if action = 2 then Some (fst old_pos, max (snd old_pos - 1) 0) else n1);
          n3 = (if action = 3 then Some (max (fst old_pos - 1) 0, snd old_pos) else n2);
          n4 = (if action = 4 then Some (min (fst old_pos + 1) (GRID_WIDTH - 1), snd old_pos) else n3)
      in n4)"

text \<open>
  \<open>move_one_cell\<close>. \<open>pacbot.update(new_pos)\<close> belongs to the external engine; it is
  modelled as storing the position.
\<close>

definition move_one_cell ::
  "('h, 'z) BasePacmanGym_scheme \<Rightarrow> int \<Rightarrow> (error + unit) \<times> ('h, 'z) BasePacmanGym_scheme" where
  "move_one_cell self action =
     (let old_pos = pacbot_pos (game_state self) in
      case new_pos_of old_pos action of
        None \<Rightarrow> (Inl UnboundLocalError, self)
      | Some new_pos \<Rightarrow>
          (case get2 (grid (game_state self)) (fst new_pos) (snd new_pos) of
             Inl err \<Rightarrow> (Inl err, self)
           | Inr code \<Rightarrow>
               if code \<noteq> 1 \<and> code \<noteq> 5
               then (Inr (), self\<lparr>game_state := (game_state self)\<lparr>pacbot_pos := new_pos\<rparr>\<rparr>)
               else (Inr (), self)))"

text \<open>
  One condition of \<open>action_mask\<close>: \<open>edge or grid[..][..] in (1, 5)\<close>. The \<open>or\<close>
  does not evaluate the grid access when Pacman is on the edge.
\<close>

definition edge_or_blocked :: "bool \<Rightarrow> error + int \<Rightarrow> error + bool" where
  "edge_or_blocked edge cell =
     (if edge then Inr True else and_then cell (\<lambda>code. Inr (code = 1 \<or> code = 5)))"

definition action_mask :: "('h, 'z) BasePacmanGym_scheme \<Rightarrow> error + int list" where
  "action_mask self =
     (let pos = pacbot_pos (game_state self); g = grid (game_state self) in
      and_then (edge_or_blocked (snd pos = GRID_HEIGHT - 1) (get2 g (fst pos) (snd pos + 1))) (\<lambda>m1.
      and_then (edge_or_blocked (snd pos = 0) (get2 g (fst pos) (snd pos - 1))) (\<lambda>m2.
      and_then (edge_or_blocked (fst pos = 0) (get2 g (fst pos - 1) (snd pos))) (\<lambda>m3.
      and_then (edge_or_blocked (fst pos = GRID_WIDTH - 1) (get2 g (fst pos + 1) (snd pos))) (\<lambda>m4.
      Inr [0, if m1 then 1 else 0, if m2 then 1 else 0, if m3 then 1 else 0, if m4 then 1 else 0])))))"

text \<open>\<open>score()\<close>.\<close>

definition score_of :: "('h, 'z) BasePacmanGym_scheme \<Rightarrow> int" where
  "score_of self = score (game_state self)"

text \<open>
  The constants of the module \<open>variables\<close> that the environments use. Their values
  are a parameter of every method that reads them. \<open>var_c\<close> and \<open>var_O\<close> are
  \<open>variables.c\<close> and \<open>variables.O\<close>.
\<close>

record variables =
  ghost_score :: int
  pellet_score :: int
  power_pellet_score :: int
  cherry_score :: int
  starting_lives :: int
  frightened_length :: int
  var_c :: int
  var_O :: int

text \<open>
  \<open>for _ in range(n): self.game_state.next_step()\<close>. The engine's \<open>next_step\<close> is the
  parameter \<open>ns\<close>.
\<close>

fun run_ticks :: "('g \<Rightarrow> 'g) \<Rightarrow> nat \<Rightarrow> 'g \<Rightarrow> 'g" where
  "run_ticks ns 0 gs = gs"
| "run_ticks ns (Suc n) gs = run_ticks ns n (ns gs)"

text \<open>What \<open>step\<close> returns: the observation, the reward, \<open>done\<close> and the action mask
  of \<open>info\<close> (absent in the variant that returns an empty \<open>info\<close>).\<close>

record 'o step_result =
  r_obs :: 'o
  r_reward :: pyfloat
  r_done :: bool
  r_action_mask :: "int list option"

section \<open>Variant A: NaivePacmanGym\<close>

text \<open>
  \<open>NaivePacmanGym.create_obs\<close>. The entities are written in the order of
  \<open>reversed(list(enumerate(entity_positions)))\<close>.
\<close>

definition entity_value :: "bool \<Rightarrow> nat \<Rightarrow> pyfloat" where
  "entity_value fright i = (if fright \<and> 0 < i then Fin (- 1) else Fin (real i + 1))"

definition write_entity ::
  "bool \<Rightarrow> nat \<times> pos \<Rightarrow> pyfloat list list \<Rightarrow> (error + unit) \<times> pyfloat list list" where
  "write_entity fright ip entities =
     (case set2 entities (fst (snd ip)) (snd (snd ip)) (entity_value fright (fst ip)) of
        Inl err \<Rightarrow> (Inl err, entities)
      | Inr entities' \<Rightarrow> (Inr (), entities'))"

definition create_obs_A ::
  "variables \<Rightarrow> ('h, 'z) BasePacmanGym_scheme \<Rightarrow> error + pyfloat list list list" where
  "create_obs_A v self =
     (let gs = game_state self; fright = is_frightened gs in
      and_then (np_asarray (grid gs)) (\<lambda>g.
        let grid_ch = map_2d (\<lambda>code. np_div (Fin (of_int code)) (of_int (var_c v))) g;
            entities = zeros2 (shape_of g);
            entity_positions =
              [pacbot_pos gs, red_current gs, blue_current gs, pink_current gs, orange_current gs]
        in case for_each (write_entity fright) (rev (enumerate 0 entity_positions)) entities of
             (Inl err, _) \<Rightarrow> Inl err
           | (Inr _, entities') \<Rightarrow> np_stack [grid_ch, entities']))"

text \<open>\<open>NaivePacmanGym.step\<close>.\<close>

definition step_A ::
  "('h GameState \<Rightarrow> 'h GameState) \<Rightarrow> variables \<Rightarrow> ('h, 'z) BasePacmanGym_scheme \<Rightarrow> int \<Rightarrow>
     (error + pyfloat list list list step_result) \<times> ('h, 'z) BasePacmanGym_scheme" where
  "step_A ns v self action =
     seq (move_one_cell self action) (\<lambda>_ s1.
       let s2 = s1\<lparr>game_state := run_ticks ns (nat (ticks_per_step s1)) (game_state s1)\<rparr>;
           dn = \<not> play (game_state s2)
       in seq (pure (py_truediv (score (game_state s2) - last_score s2) (ghost_score v)) s2) (\<lambda>q s2.
            let reward = Fin q;
                reward = (if dn then Fin 0 else reward);
                reward = nan_guard reward;
                s3 = s2\<lparr>last_score := score (game_state s2)\<rparr>
            in seq (pure (action_mask s3) s3) (\<lambda>mask s3.
               seq (pure (create_obs_A v s3) s3) (\<lambda>obs s3.
                 (Inr \<lparr>r_obs = obs, r_reward = reward, r_done = dn, r_action_mask = Some mask\<rparr>, s3)))))"

section \<open>Variant B: SemanticChannelPacmanGym\<close>

record 'h SemanticChannelPacmanGym = "'h BasePacmanGym" +
  last_ghost_pos :: "pos list"
  last_action :: int
  last_pos :: pos

text \<open>
  The loop of \<open>step\<close>, which stops as soon as the game no longer plays:
  \<open>for _ in range(n): next_step(); if not play: break\<close>.
\<close>

fun run_ticks_break :: "('h GameState \<Rightarrow> 'h GameState) \<Rightarrow> nat \<Rightarrow> 'h GameState \<Rightarrow> 'h GameState" where
  "run_ticks_break ns 0 gs = gs"
| "run_ticks_break ns (Suc n) gs =
     (let gs' = ns gs in if \<not> play gs' then gs' else run_ticks_break ns n gs')"

definition ghost_positions :: "'h GameState \<Rightarrow> pos list" where
  "ghost_positions gs = [red_current gs, pink_current gs, orange_current gs, blue_current gs]"

text \<open>\<open>x > 0\<close> on a float.\<close>

definition fpos :: "pyfloat \<Rightarrow> bool" where
  "fpos x = (case x of Fin a \<Rightarrow> 0 < a | PInf \<Rightarrow> True | _ \<Rightarrow> False)"

text \<open>
  The value of the item on a cell:
  \<open>where(grid == 2) * pellet_score + where(grid == 6) * cherry_score + where(grid == 4) * power_pellet_score\<close>.
\<close>

definition item_value :: "variables \<Rightarrow> int \<Rightarrow> int" where
  "item_value v code =
     (if code = 2 then 1 else 0) * pellet_score v + (if code = 6 then 1 else 0) * cherry_score v
     + (if code = 4 then 1 else 0) * power_pellet_score v"

text \<open>\<open>.sum(0)\<close> of a 3-D integer array with at least one channel.\<close>

definition sum0 :: "int list list list \<Rightarrow> int list list" where
  "sum0 chans = (case chans of [] \<Rightarrow> [] | c # cs \<Rightarrow> foldl (zip_2d (+)) c cs)"

text \<open>The body of the first loop of \<open>create_obs\<close>, on the arrays \<open>ghost\<close> and \<open>state\<close>.\<close>

definition write_ghost_B ::
  "variables \<Rightarrow> 'h GameState \<Rightarrow> nat \<times> pos \<Rightarrow> pyfloat list list list \<times> pyfloat list list list \<Rightarrow>
     (error + unit) \<times> (pyfloat list list list \<times> pyfloat list list list)" where
  "write_ghost_B v gs ip arrays =
     (let i = fst ip; p = snd ip; ghost = fst arrays; state = snd arrays in
      case set3 ghost (int i) (fst p) (snd p) (Fin 1) of
        Inl err \<Rightarrow> (Inl err, arrays)
      | Inr ghost' \<Rightarrow>
          (case (if i \<noteq> 3 then Inr 1 else py_truediv (frightened_counter gs) (frightened_length v)) of
             Inl err \<Rightarrow> (Inl err, (ghost', state))
           | Inr val \<Rightarrow>
               (case set3 state (ghost_state gs - 1) (fst p) (snd p) (Fin val) of
                  Inl err \<Rightarrow> (Inl err, (ghost', state))
                | Inr state' \<Rightarrow> (Inr (), (ghost', state')))))"

definition write_last_ghost ::
  "nat \<times> pos \<Rightarrow> pyfloat list list list \<Rightarrow> (error + unit) \<times> pyfloat list list list" where
  "write_last_ghost ip last_ghost =
     (case set3 last_ghost (int (fst ip)) (fst (snd ip)) (snd (snd ip)) (Fin 1) of
        Inl err \<Rightarrow> (Inl err, last_ghost)
      | Inr last_ghost' \<Rightarrow> (Inr (), last_ghost'))"

text \<open>The result of a loop on local arrays: the arrays, or the exception.\<close>

definition loop_result :: "(error + unit) \<times> 's \<Rightarrow> error + 's" where
  "loop_result r = (case r of (Inl err, _) \<Rightarrow> Inl err | (Inr _, s) \<Rightarrow> Inr s)"

text \<open>\<open>SemanticChannelPacmanGym.create_obs\<close>.\<close>

definition create_obs_B ::
  "variables \<Rightarrow> ('h, 'z) SemanticChannelPacmanGym_scheme \<Rightarrow> error + pyfloat list list list" where
  "create_obs_B v self =
     (let gs = game_state self in
      and_then (np_asarray (grid gs)) (\<lambda>g.
        let wall = map_2d (\<lambda>code. if code = 1 \<or> code = 5 then (1::int) else 0) g;
            fright = is_frightened gs;
            entity_positions = ghost_positions gs
        in
        and_then (loop_result (for_each (write_ghost_B v gs) (enumerate 0 entity_positions)
                    (zeros3 4 (shape_of g), zeros3 3 (shape_of g)))) (\<lambda>arrays.
        let ghost = fst arrays; state = snd arrays in
        and_then (loop_result (for_each write_last_ghost (enumerate 0 (last_ghost_pos self))
                    (zeros3 4 (shape_of g)))) (\<lambda>last_ghost.
        let fright_ghost =
              map_2d (\<lambda>n. n * (if fright then 1 else 0))
                (sum0 (map (map_2d (\<lambda>x. if fpos x then (1::int) else 0)) ghost));
            reward =
              zip_2d (\<lambda>code fg. np_div (Fin (of_int (item_value v code + fg * ghost_score v)))
                                  (of_int (ghost_score v))) g fright_ghost;
            pac_pos = pacbot_pos gs
        in
        and_then (set3 (zeros3 2 (shape_of g)) 0 (fst (last_pos self)) (snd (last_pos self)) (Fin 1)) (\<lambda>pacman.
        and_then (set3 pacman 1 (fst pac_pos) (snd pac_pos) (Fin 1)) (\<lambda>pacman.
        and_then (np_stack [map_2d (\<lambda>b. Fin (of_int b)) wall, reward]) (\<lambda>wr.
        np_concatenate [wr, pacman, ghost, last_ghost, state])))))))"

text \<open>\<open>SemanticChannelPacmanGym.step\<close>.\<close>

definition tick_mult_of :: "int \<Rightarrow> int \<Rightarrow> int" where
  "tick_mult_of last_act action = (if last_act = action \<or> last_act = 0 then 1 else 2)"

text \<open>
  \<open>any(old != new for old, new in zip(entity_positions, new_entity_positions))\<close>.
\<close>

definition pos_changed :: "pos list \<Rightarrow> pos list \<Rightarrow> bool" where
  "pos_changed entity_positions new_entity_positions =
     list_ex (\<lambda>(old, new). old \<noteq> new) (zip entity_positions new_entity_positions)"

text \<open>
  The lines of \<open>step\<close> that keep the ghost positions of before the ticks when the
  ticks moved a ghost.
\<close>

definition track_ghosts_B ::
  "pos list \<Rightarrow> ('h, 'z) SemanticChannelPacmanGym_scheme \<Rightarrow> ('h, 'z) SemanticChannelPacmanGym_scheme" where
  "track_ghosts_B entity_positions self =
     (let new_entity_positions = ghost_positions (game_state self) in
      if pos_changed entity_positions new_entity_positions
      then self\<lparr>last_ghost_pos := entity_positions\<rparr> else self)"

definition step_B ::
  "('h GameState \<Rightarrow> 'h GameState) \<Rightarrow> variables \<Rightarrow> ('h, 'z) SemanticChannelPacmanGym_scheme \<Rightarrow> int \<Rightarrow>
     (error + pyfloat list list list step_result) \<times> ('h, 'z) SemanticChannelPacmanGym_scheme" where
  "step_B ns v self action =
     (let s0 = self\<lparr>last_pos := pacbot_pos (game_state self)\<rparr> in
      seq (move_one_cell s0 action) (\<lambda>_ s1.
        let entity_positions = ghost_positions (game_state s1);
            tick_mult = tick_mult_of (last_action s1) action;
            s2 = s1\<lparr>game_state :=
                   run_ticks_break ns (nat (ticks_per_step s1 * tick_mult)) (game_state s1)\<rparr>;
            s3 = s2\<lparr>last_action := action\<rparr>;
            s4 = track_ghosts_B entity_positions s3;
            dn = \<not> play (game_state s4)
        in seq (pure (py_truediv (score (game_state s4) - last_score s4) (ghost_score v)) s4) (\<lambda>q s4.
             let reward = Fin q;
                 reward = (if tick_mult = 2 then fsub reward (Fin (5 / 100)) else reward);
                 reward = (if dn \<and> lives (game_state s4) < 3 then Fin 0 else reward);
                 s5 = s4\<lparr>last_score := score (game_state s4)\<rparr>
             in seq (pure (create_obs_B v s5) s5) (\<lambda>obs s5.
                seq (pure (action_mask s5) s5) (\<lambda>mask s5.
                  (Inr \<lparr>r_obs = obs, r_reward = reward, r_done = dn, r_action_mask = Some mask\<rparr>, s5))))))"

section \<open>Variant D: SelfAttentionPacmanGym\<close>

record 'h SelfAttentionPacmanGym = "'h BasePacmanGym" +
  entities :: "pyfloat list list list"
  pacman :: "pyfloat list list"

text \<open>The first loop of \<open>create_obs\<close>: \<open>ghost[pos[0]][pos[1]] = 1\<close>.\<close>

definition mark_ghost :: "pos \<Rightarrow> pyfloat list list \<Rightarrow> (error + unit) \<times> pyfloat list list" where
  "mark_ghost p ghost =
     (case set2 ghost (fst p) (snd p) (Fin 1) of
        Inl err \<Rightarrow> (Inl err, ghost)
      | Inr ghost' \<Rightarrow> (Inr (), ghost'))"

text \<open>
  The body of the second loop, which writes into \<open>self.entities\<close> and into the local
  array \<open>state\<close>.
\<close>

definition write_entity_D ::
  "nat \<times> pos \<Rightarrow> ('h, 'z) SelfAttentionPacmanGym_scheme \<times> pyfloat list list list \<Rightarrow>
     (error + unit) \<times> (('h, 'z) SelfAttentionPacmanGym_scheme \<times> pyfloat list list list)" where
  "write_entity_D ip ss =
     (let i = fst ip; p = snd ip; self = fst ss; state = snd ss in
      case set3 (entities self) (int i) (fst p) (snd p) (Fin 1) of
        Inl err \<Rightarrow> (Inl err, ss)
      | Inr ent \<Rightarrow>
          (let self' = self\<lparr>entities := ent\<rparr> in
           case set3 state (ghost_state (game_state self') - 1) (fst p) (snd p) (Fin 1) of
             Inl err \<Rightarrow> (Inl err, (self', state))
           | Inr state' \<Rightarrow> (Inr (), (self', state'))))"

text \<open>
  The distance channel:
  \<open>(1 - (abs(width_diff) + abs(height_diff)) / (GRID_WIDTH + GRID_HEIGHT)) ** 2\<close>.
\<close>

definition dist_channel :: "pos \<Rightarrow> pyfloat list list" where
  "dist_channel pac_pos =
     map (\<lambda>x. map (\<lambda>y.
            Fin ((1 - of_int (\<bar>int x - fst pac_pos\<bar> + \<bar>int y - snd pac_pos\<bar>)
                       / of_int (GRID_WIDTH + GRID_HEIGHT))\<^sup>2))
          [0..<nat GRID_HEIGHT]) [0..<nat GRID_WIDTH]"

text \<open>\<open>a *= 0.5\<close> on a 2-D array.\<close>

definition halve2 :: "pyfloat list list \<Rightarrow> pyfloat list list" where
  "halve2 a = map_2d (fscale (1 / 2)) a"

text \<open>The second list \<open>entity_positions\<close> of \<open>create_obs\<close>, in its own order.\<close>

definition trail_positions :: "'h GameState \<Rightarrow> pos list" where
  "trail_positions gs = [red_current gs, blue_current gs, pink_current gs, orange_current gs]"

text \<open>
  \<open>SelfAttentionPacmanGym.create_obs\<close>. It halves \<open>self.entities\<close> and
  \<open>self.pacman\<close> and writes the current positions into them, so it returns the
  environment as well. \<open>create_obs_D_tail\<close> is the method from the line
  \<open>self.entities *= 0.5\<close> on, given the array \<open>reward\<close> computed before it.
\<close>

definition create_obs_D_tail ::
  "nat \<times> nat \<Rightarrow> pyfloat list list \<Rightarrow> ('h, 'z) SelfAttentionPacmanGym_scheme \<Rightarrow>
     (error + pyfloat list list list) \<times> ('h, 'z) SelfAttentionPacmanGym_scheme" where
  "create_obs_D_tail sh reward self0 =
     (let gs = game_state self0;
          self1 = self0\<lparr>entities := map halve2 (entities self0)\<rparr>;
          entity_positions = trail_positions gs
      in
      case for_each write_entity_D (enumerate 0 entity_positions) (self1, zeros3 3 sh) of
        (Inl err, ss) \<Rightarrow> (Inl err, fst ss)
      | (Inr _, ss) \<Rightarrow>
          (let self2 = fst ss; state = snd ss;
               pac_pos = pacbot_pos gs;
               self3 = self2\<lparr>pacman := halve2 (pacman self2)\<rparr>
           in
           case set2 (pacman self3) (fst pac_pos) (snd pac_pos) (Fin 1) of
             Inl err \<Rightarrow> (Inl err, self3)
           | Inr pm \<Rightarrow>
               (let self4 = self3\<lparr>pacman := pm\<rparr>;
                    dist = dist_channel pac_pos
                in
                (and_then (np_stack [pacman self4, reward, dist]) (\<lambda>prd.
                 and_then (np_concatenate [prd, entities self4]) (\<lambda>inner.
                 np_concatenate [inner, state])),
                 self4))))"

definition create_obs_D ::
  "variables \<Rightarrow> ('h, 'z) SelfAttentionPacmanGym_scheme \<Rightarrow>
     (error + pyfloat list list list) \<times> ('h, 'z) SelfAttentionPacmanGym_scheme" where
  "create_obs_D v self =
     (let gs = game_state self in
      seq (pure (np_asarray (grid gs)) self) (\<lambda>g self.
      seq (pure (loop_result (for_each mark_ghost (ghost_positions gs) (zeros2 (shape_of g)))) self) (\<lambda>ghost self.
        let fright = is_frightened gs;
            fright_ghost = map_2d (\<lambda>x. (if fpos x then (1::int) else 0) * (if fright then 1 else 0)) ghost;
            log_ch = zip_2d (\<lambda>code fg. np_log (of_int (1 + item_value v code + fg * ghost_score v)))
                       g fright_ghost
        in
        seq (pure (math_log (ghost_score v)) self) (\<lambda>d self.
          create_obs_D_tail (shape_of g) (map_2d (\<lambda>x. np_div x d) log_ch) self))))"

text \<open>\<open>SelfAttentionPacmanGym.step\<close>.\<close>

definition step_D ::
  "('h GameState \<Rightarrow> 'h GameState) \<Rightarrow> variables \<Rightarrow> ('h, 'z) SelfAttentionPacmanGym_scheme \<Rightarrow> int \<Rightarrow>
     (error + pyfloat list list list step_result) \<times> ('h, 'z) SelfAttentionPacmanGym_scheme" where
  "step_D ns v self action =
     seq (move_one_cell self action) (\<lambda>_ s1.
       let s2 = s1\<lparr>game_state := run_ticks ns (nat (ticks_per_step s1)) (game_state s1)\<rparr>;
           dn = \<not> play (game_state s2)
       in seq (pure (math_log (1 + score (game_state s2) - last_score s2)) s2) (\<lambda>num s2.
          seq (pure (math_log (ghost_score v)) s2) (\<lambda>den s2.
          seq (pure (py_fdiv num den) s2) (\<lambda>q s2.
            let reward = Fin q;
                reward = (if lives (game_state s2) < starting_lives v then Fin (- 1) else reward);
                reward = nan_guard reward;
                s3 = s2\<lparr>last_score := score (game_state s2)\<rparr>
            in seq (pure (action_mask s3) s3) (\<lambda>mask s3.
               seq (create_obs_D v s3) (\<lambda>obs s4.
                 (Inr \<lparr>r_obs = obs, r_reward = reward, r_done = dn, r_action_mask = Some mask\<rparr>, s4)))))))"

section \<open>Variant C: SemanticPacmanGym\<close>

text \<open>
  The files loaded when the module is imported: \<open>node_coords.json\<close>,
  \<open>node_embeddings.npy\<close> and \<open>action_distributions.npy\<close>. They are a parameter of the
  methods that read them. A numpy array is rectangular, so the rows of
  \<open>node_embeddings\<close> have one length, and so have those of \<open>action_distributions\<close>.
\<close>

record tables =
  node_to_coords :: "pos list"
  node_embeddings :: "pyfloat list list"
  action_distributions :: "pyfloat list list list"

definition embed_dim :: "tables \<Rightarrow> nat" where
  "embed_dim t = row_len (node_embeddings t)"

text \<open>
  \<open>{coords: i for i, coords in enumerate(node_to_coords)}\<close>: the last index wins for
  coordinates listed twice.
\<close>

definition coords_to_node :: "tables \<Rightarrow> pos \<Rightarrow> nat option" where
  "coords_to_node t = map_of (rev (map (\<lambda>(i, coords). (coords, i)) (enumerate 0 (node_to_coords t))))"

text \<open>\<open>(action_distributions != 0).max(axis=1)\<close>, as 0 and 1.\<close>

definition valid_actions :: "tables \<Rightarrow> pyfloat list list" where
  "valid_actions t =
     map (\<lambda>plane. map (\<lambda>a. if list_ex (\<lambda>r. r ! a \<noteq> Fin 0) plane then Fin 1 else Fin 0)
                     [0..<row_len plane])
       (action_distributions t)"

text \<open>\<open>a[i]\<close> on a list or on the first axis of an array.\<close>

definition get1 :: "'a list \<Rightarrow> int \<Rightarrow> error + 'a" where
  "get1 a i = and_then (py_index (length a) i) (\<lambda>j. Inr (a ! j))"

text \<open>\<open>d[k]\<close> on a dictionary.\<close>

definition lookup :: "('k \<Rightarrow> 'v option) \<Rightarrow> 'k \<Rightarrow> error + 'v" where
  "lookup d k = (case d k of None \<Rightarrow> Inl KeyError | Some x \<Rightarrow> Inr x)"

text \<open>\<open>min(xs, key=..)\<close> on a list with first element \<open>x\<close>: the first minimal element.\<close>

fun min_by :: "('a \<Rightarrow> int) \<Rightarrow> 'a \<Rightarrow> 'a list \<Rightarrow> 'a" where
  "min_by key x [] = x"
| "min_by key x (y # ys) = (let m = min_by key y ys in if key x \<le> key m then x else m)"

definition vec_add :: "pyfloat list \<Rightarrow> pyfloat list \<Rightarrow> pyfloat list" where
  "vec_add a b = map (\<lambda>(x, y). fadd x y) (zip a b)"

text \<open>The loop that sums the embeddings of the ghosts on navigable cells.\<close>

definition add_ghost_embed :: "tables \<Rightarrow> pos \<Rightarrow> pyfloat list \<Rightarrow> (error + unit) \<times> pyfloat list" where
  "add_ghost_embed t p ghost_embed =
     (case coords_to_node t p of
        None \<Rightarrow> (Inr (), ghost_embed)
      | Some n \<Rightarrow>
          (case get1 (node_embeddings t) (int n) of
             Inl err \<Rightarrow> (Inl err, ghost_embed)
           | Inr row \<Rightarrow> (Inr (), vec_add ghost_embed row)))"

text \<open>The loop over the four power pellet cells.\<close>

definition add_pellet_embed ::
  "variables \<Rightarrow> tables \<Rightarrow> int list list \<Rightarrow> pos \<Rightarrow> pyfloat list \<Rightarrow> (error + unit) \<times> pyfloat list" where
  "add_pellet_embed v t g p pellet_embed =
     (case get2 g (fst p) (snd p) of
        Inl err \<Rightarrow> (Inl err, pellet_embed)
      | Inr code \<Rightarrow>
          if code = var_O v
          then (case and_then (lookup (coords_to_node t) p) (\<lambda>n. get1 (node_embeddings t) (int n)) of
                  Inl err \<Rightarrow> (Inl err, pellet_embed)
                | Inr row \<Rightarrow> (Inr (), vec_add pellet_embed row))
          else (Inr (), pellet_embed))"

definition dist_to_pacman :: "pos \<Rightarrow> pos \<Rightarrow> int" where
  "dist_to_pacman pac p = \<bar>fst pac - fst p\<bar> + \<bar>snd pac - snd p\<bar>"

text \<open>\<open>SemanticPacmanGym.create_obs\<close>.\<close>

definition create_obs_C ::
  "variables \<Rightarrow> tables \<Rightarrow> ('h, 'z) BasePacmanGym_scheme \<Rightarrow> error + pyfloat list" where
  "create_obs_C v t self =
     (let gs = game_state self in
      and_then (lookup (coords_to_node t) (pacbot_pos gs)) (\<lambda>pacman_node_index.
      and_then (get1 (node_embeddings t) (int pacman_node_index)) (\<lambda>pacman_pos_embed.
      and_then (loop_result (for_each (add_ghost_embed t) (ghost_positions gs)
                  (replicate (embed_dim t) (Fin 0)))) (\<lambda>ghost_embed.
      let navigable = filter (\<lambda>p. coords_to_node t p \<noteq> None) (ghost_positions gs) in
      and_then (case navigable of
                  [] \<Rightarrow> Inr (replicate 5 (Fin 0))
                | p # ps \<Rightarrow>
                    and_then (lookup (coords_to_node t) (min_by (dist_to_pacman (pacbot_pos gs)) p ps)) (\<lambda>n.
                    get2 (action_distributions t) (int pacman_node_index) (int n))) (\<lambda>closest_ghost_dir.
      and_then (loop_result (for_each (add_pellet_embed v t (grid gs)) [(1, 7), (1, 27), (26, 7), (26, 27)]
                  (replicate (embed_dim t) (Fin 0)))) (\<lambda>pellet_embed.
      and_then (get1 (valid_actions t) (int pacman_node_index)) (\<lambda>valid.
      Inr (pacman_pos_embed @ ghost_embed @ pellet_embed @ closest_ghost_dir @ valid
           @ [if is_frightened gs then Fin 1 else Fin 0, Fin (real pacman_node_index)]))))))))"

text \<open>\<open>SemanticPacmanGym.step\<close>. The environment keeps \<open>last_ghost_pos\<close> as well.\<close>

record 'h SemanticPacmanGym = "'h BasePacmanGym" +
  sem_last_ghost_pos :: "pos list"

definition track_ghosts_C ::
  "pos list \<Rightarrow> ('h, 'z) SemanticPacmanGym_scheme \<Rightarrow> ('h, 'z) SemanticPacmanGym_scheme" where
  "track_ghosts_C entity_positions self =
     (let new_entity_positions = ghost_positions (game_state self) in
      if pos_changed entity_positions new_entity_positions
      then self\<lparr>sem_last_ghost_pos := entity_positions\<rparr> else self)"


section \<open>Well-formed game states\<close>

text \<open>The grid has 28 columns of 31 cells, as the engine's grid has.\<close>

definition wf_grid :: "int list list \<Rightarrow> bool" where
  "wf_grid g = (length g = 28 \<and> list_all (\<lambda>col. length col = 31) g)"

definition in_bounds :: "pos \<Rightarrow> bool" where
  "in_bounds p = (0 \<le> fst p \<and> fst p < GRID_WIDTH \<and> 0 \<le> snd p \<and> snd p < GRID_HEIGHT)"

definition wf_state :: "'h GameState \<Rightarrow> bool" where
  "wf_state gs =
     (wf_grid (grid gs) \<and> in_bounds (pacbot_pos gs) \<and> in_bounds (red_current gs) \<and>
      in_bounds (pink_current gs) \<and> in_bounds (orange_current gs) \<and> in_bounds (blue_current gs))"

text \<open>An array of a given shape, and the shape of the grid.\<close>

definition has_shape :: "nat \<times> nat \<Rightarrow> 'a list list \<Rightarrow> bool" where
  "has_shape sh a = (length a = fst sh \<and> list_all (\<lambda>r. length r = snd sh) a)"

definition grid_shape :: "nat \<times> nat" where
  "grid_shape = (28, 31)"

text \<open>The array \<open>a\<close> with the value \<open>v\<close> at the in-bounds position \<open>p\<close>.\<close>

definition put :: "'a list list \<Rightarrow> pos \<Rightarrow> 'a \<Rightarrow> 'a list list" where
  "put a p v = a[nat (fst p) := (a ! nat (fst p))[nat (snd p) := v]]"

text \<open>The cell type at an in-bounds position.\<close>

definition cell :: "int list list \<Rightarrow> pos \<Rightarrow> int" where
  "cell g p = g ! nat (fst p) ! nat (snd p)"

text \<open>
  The action mapping in the words of the specification: 0 stays, 1 is +y, 2 is -y,
  3 is -x, 4 is +x, each clamped to the grid.
\<close>

definition clamp :: "int \<Rightarrow> int \<Rightarrow> int \<Rightarrow> int" where
  "clamp lo hi v = max lo (min hi v)"

definition spec_target :: "pos \<Rightarrow> int \<Rightarrow> pos" where
  "spec_target p action =
     (if action = 1 then (fst p, clamp 0 (GRID_HEIGHT - 1) (snd p + 1))
      else if action = 2 then (fst p, clamp 0 (GRID_HEIGHT - 1) (snd p - 1))
      else if action = 3 then (clamp 0 (GRID_WIDTH - 1) (fst p - 1), snd p)
      else if action = 4 then (clamp 0 (GRID_WIDTH - 1) (fst p + 1), snd p)
      else p)"

text \<open>The unclamped neighbour in a direction, for the action mask.\<close>

definition neighbour :: "pos \<Rightarrow> int \<Rightarrow> pos" where
  "neighbour p action =
     (if action = 1 then (fst p, snd p + 1)
      else if action = 2 then (fst p, snd p - 1)
      else if action = 3 then (fst p - 1, snd p)
      else if action = 4 then (fst p + 1, snd p)
      else p)"

definition wall_or_door :: "int \<Rightarrow> bool" where
  "wall_or_door code = (code = 1 \<or> code = 5)"

definition off_grid_or_blocked :: "int list list \<Rightarrow> pos \<Rightarrow> bool" where
  "off_grid_or_blocked g p = (if in_bounds p then wall_or_door (cell g p) else True)"

text \<open>
  Where a move ends: on the target of the specification's mapping, unless that cell is a
  wall or the ghost door.
\<close>

definition moved_pos :: "int list list \<Rightarrow> pos \<Rightarrow> int \<Rightarrow> pos" where
  "moved_pos g p action =
     (if wall_or_door (cell g (spec_target p action)) then p else spec_target p action)"

text \<open>The mask in the words of the specification.\<close>

definition mask_of :: "int list list \<Rightarrow> pos \<Rightarrow> int list" where
  "mask_of g p = 0 # map (\<lambda>i. if off_grid_or_blocked g (neighbour p i) then 1 else 0) [1, 2, 3, 4]"

text \<open>A 3-D array of \<open>k\<close> channels, each of the shape of the grid.\<close>

definition has_shape3 :: "nat \<Rightarrow> 'a list list list \<Rightarrow> bool" where
  "has_shape3 k a = (length a = k \<and> list_all (has_shape grid_shape) a)"

text \<open>
  The engine's \<open>state()\<close> is 1, 2 or 3 (scatter, chase, frightened): the environments
  use it, less 1, as an index into three channels.
\<close>

definition wf_phase :: "'h GameState \<Rightarrow> bool" where
  "wf_phase gs = (1 \<le> ghost_state gs \<and> ghost_state gs \<le> 3)"

definition wf_game :: "'h GameState \<Rightarrow> bool" where
  "wf_game gs = (wf_state gs \<and> wf_phase gs)"

text \<open>
  A well-formed environment of Variant B: besides the game state, the positions that the
  environment has stored are inside the grid, and it has stored at most four ghost
  positions.
\<close>

definition wf_gym_B :: "('h, 'z) SemanticChannelPacmanGym_scheme \<Rightarrow> bool" where
  "wf_gym_B self =
     (wf_state (game_state self) \<and> wf_phase (game_state self) \<and> in_bounds (last_pos self)
      \<and> length (last_ghost_pos self) \<le> 4 \<and> list_all in_bounds (last_ghost_pos self))"

text \<open>A well-formed environment of Variant D: the stored trail arrays have their shapes.\<close>

definition wf_gym_D :: "('h, 'z) SelfAttentionPacmanGym_scheme \<Rightarrow> bool" where
  "wf_gym_D self =
     (wf_game (game_state self) \<and> has_shape grid_shape (pacman self) \<and> has_shape3 4 (entities self))"


text \<open>A cell that \<open>coords_to_node\<close> knows.\<close>

definition navigable :: "tables \<Rightarrow> pos \<Rightarrow> bool" where
  "navigable t p = (coords_to_node t p \<noteq> None)"


section \<open>Closed forms\<close>

text \<open>The reward of a step of Variant B, given the tick multiplier, the last seen score
  and the game state after the ticks.\<close>

definition reward_B :: "variables \<Rightarrow> int \<Rightarrow> int \<Rightarrow> 'h GameState \<Rightarrow> pyfloat" where
  "reward_B v tick_mult seen gs =
     (if \<not> play gs \<and> lives gs < 3 then Fin 0
      else if tick_mult = 2
        then Fin (of_int (score gs - seen) / of_int (ghost_score v) - 5 / 100)
        else Fin (of_int (score gs - seen) / of_int (ghost_score v)))"

text \<open>The reward of a step of Variant D, given the last seen score and the game state
  after the ticks.\<close>

definition reward_D :: "variables \<Rightarrow> int \<Rightarrow> 'h GameState \<Rightarrow> pyfloat" where
  "reward_D v seen gs =
     (if lives gs < starting_lives v then Fin (- 1)
      else Fin (ln (real_of_int (1 + score gs - seen)) / ln (real_of_int (ghost_score v))))"

text \<open>
  The channels \<open>a\<close> with 1 written at the position \<open>ps ! i\<close> of channel \<open>n + i\<close>:
  what the second loop of \<open>create_obs\<close> of Variant D does to \<open>self.entities\<close>.
\<close>

fun stamp_from :: "nat \<Rightarrow> pyfloat list list list \<Rightarrow> pos list \<Rightarrow> pyfloat list list list" where
  "stamp_from n a [] = a"
| "stamp_from n a (p # ps) = stamp_from (Suc n) (a[n := put (a ! n) p (Fin 1)]) ps"

text \<open>
  The environment of Variant D after a call of \<open>create_obs\<close>, and the observation that
  the call returns, given its reward channel and its three state channels.
\<close>

definition after_obs_D :: "('h, 'z) SelfAttentionPacmanGym_scheme \<Rightarrow> ('h, 'z) SelfAttentionPacmanGym_scheme" where
  "after_obs_D self =
     self\<lparr>entities := stamp_from 0 (map halve2 (entities self)) (trail_positions (game_state self)),
          pacman := put (halve2 (pacman self)) (pacbot_pos (game_state self)) (Fin 1)\<rparr>"

definition obs_D_of ::
  "('h, 'z) SelfAttentionPacmanGym_scheme \<Rightarrow> pyfloat list list \<Rightarrow> pyfloat list list list
     \<Rightarrow> pyfloat list list list" where
  "obs_D_of self reward state =
     [put (halve2 (pacman self)) (pacbot_pos (game_state self)) (Fin 1), reward,
      dist_channel (pacbot_pos (game_state self))]
     @ stamp_from 0 (map halve2 (entities self)) (trail_positions (game_state self))
     @ state"

section \<open>Example states\<close>

text \<open>
  A grid without walls (every cell has the code 3), and the same grid with a wall below
  the cell (5, 5).
\<close>

definition open_grid :: "int list list" where
  "open_grid = replicate 28 (replicate 31 3)"

definition walled_grid :: "int list list" where
  "walled_grid = put open_grid (5, 6) 1"

text \<open>Pacman on (5, 5) above the wall; the red ghost is on Pacman's cell.\<close>

definition example_state :: "unit GameState" where
  "example_state =
     \<lparr>grid = walled_grid, pacbot_pos = (5, 5), red_current = (5, 5), pink_current = (1, 1),
      orange_current = (26, 1), blue_current = (1, 29), score = 0, play = True, lives = 3,
      is_frightened = True, ghost_state = 1, frightened_counter = 0, engine = ()\<rparr>"

definition example_gym :: "unit BasePacmanGym" where
  "example_gym = \<lparr>game_state = example_state, last_score = 0, ticks_per_step = 12\<rparr>"

definition example_variables :: variables where
  "example_variables =
     \<lparr>ghost_score = 200, pellet_score = 10, power_pellet_score = 50, cherry_score = 100,
      starting_lives = 3, frightened_length = 40, var_c = 6, var_O = 4\<rparr>"

text \<open>Engines for the examples: one that does nothing, one under which a ghost is eaten
  (the score becomes 200), one that ends the game with two lives left.\<close>

definition idle_engine :: "unit GameState \<Rightarrow> unit GameState" where
  "idle_engine gs = gs"

definition scoring_engine :: "unit GameState \<Rightarrow> unit GameState" where
  "scoring_engine gs = gs\<lparr>score := 200\<rparr>"

definition ending_engine :: "unit GameState \<Rightarrow> unit GameState" where
  "ending_engine gs = gs\<lparr>score := score gs + 10, play := False, lives := 2\<rparr>"

text \<open>An engine under which the score grows by 1 with every tick.\<close>

definition counting_engine :: "unit GameState \<Rightarrow> unit GameState" where
  "counting_engine gs = gs\<lparr>score := score gs + 1\<rparr>"

text \<open>
  Environments of Variants B and D on the example state. In the one of Variant D the
  trail of Pacman holds 1 on (5, 4), the cell Pacman came from.
\<close>

definition example_gym_B :: "unit SemanticChannelPacmanGym" where
  "example_gym_B =
     \<lparr>game_state = example_state, last_score = 0, ticks_per_step = 8,
      last_ghost_pos = ghost_positions example_state, last_action = 0, last_pos = (5, 5)\<rparr>"

definition example_gym_D :: "unit SelfAttentionPacmanGym" where
  "example_gym_D =
     \<lparr>game_state = example_state, last_score = 0, ticks_per_step = 12,
      entities = zeros3 4 grid_shape, pacman = put (zeros2 grid_shape) (5, 4) (Fin 1)\<rparr>"

text \<open>Tables with two navigable cells.\<close>

definition example_tables :: tables where
  "example_tables =
     \<lparr>node_to_coords = [(5, 5), (4, 5)],
      node_embeddings = [[Fin 1, Fin 0], [Fin 0, Fin 1]],
      action_distributions =
        [[[Fin 1, Fin 0, Fin 0, Fin 0, Fin 0], [Fin 0, Fin 0, Fin 0, Fin 1, Fin 0]],
         [[Fin 0, Fin 0, Fin 0, Fin 0, Fin 1], [Fin 1, Fin 0, Fin 0, Fin 0, Fin 0]]]\<rparr>"


section \<open>Basic facts\<close>

lemma and_then_Inr [simp]: "and_then (Inr x) f = f x"
  by (simp add: and_then_def)

lemma and_then_Inl [simp]: "and_then (Inl err) f = Inl err"
  by (simp add: and_then_def)

lemma seq_Inr [simp]: "seq (Inr x, s) f = f x s"
  by (simp add: seq_def)

lemma seq_Inl [simp]: "seq (Inl err, s) f = (Inl err, s)"
  by (simp add: seq_def)

lemma py_index_in_range: "0 \<le> i \<Longrightarrow> i < int n \<Longrightarrow> py_index n i = Inr (nat i)"
  by (simp add: py_index_def)

lemma wf_grid_col: "wf_grid g \<Longrightarrow> i < 28 \<Longrightarrow> length (g ! i) = 31"
  by (simp add: wf_grid_def list_all_length)

lemma get2_in_bounds:
  assumes "wf_grid g" and "in_bounds p"
  shows "get2 g (fst p) (snd p) = Inr (cell g p)"
proof -
  from assms(2) have x: "0 \<le> fst p" "fst p < 28" and y: "0 \<le> snd p" "snd p < 31"
    by (simp_all add: in_bounds_def GRID_WIDTH_def GRID_HEIGHT_def)
  from assms(1) have len: "length g = 28"
    by (simp add: wf_grid_def)
  from x have "nat (fst p) < 28"
    by simp
  with assms(1) have col: "length (g ! nat (fst p)) = 31"
    by (rule wf_grid_col)
  show ?thesis
    using x y by (simp add: get2_def len col py_index_in_range cell_def)
qed

lemma wf_grid_has_shape: "wf_grid g = has_shape grid_shape g"
  by (simp add: wf_grid_def has_shape_def grid_shape_def)

lemma has_shape_row: "has_shape sh a \<Longrightarrow> i < fst sh \<Longrightarrow> length (a ! i) = snd sh"
  by (simp add: has_shape_def list_all_length)

lemma has_shape_shape_of: "has_shape grid_shape a \<Longrightarrow> shape_of a = grid_shape"
  by (cases a) (simp_all add: has_shape_def grid_shape_def shape_of_def row_len_def)

lemma has_shape_asarray: "has_shape grid_shape a \<Longrightarrow> np_asarray a = Inr a"
proof -
  assume h: "has_shape grid_shape a"
  then have "row_len a = 31"
    using has_shape_shape_of [OF h] by (simp add: shape_of_def grid_shape_def)
  with h show ?thesis
    by (simp add: np_asarray_def has_shape_def grid_shape_def)
qed

lemma has_shape_zeros2: "has_shape sh (zeros2 sh)"
  by (simp add: has_shape_def zeros2_def list_all_length)

lemma length_nth_update2: "length (a[i := (a ! i)[j := v]] ! n) = length (a ! n)"
  by (cases "i < length a") (auto simp: nth_list_update list_update_beyond)

lemma has_shape_put: "has_shape sh a \<Longrightarrow> has_shape sh (put a p v)"
  by (simp add: has_shape_def put_def list_all_length length_nth_update2)

lemma has_shape_map_2d: "has_shape sh a \<Longrightarrow> has_shape sh (map_2d f a)"
  by (simp add: has_shape_def map_2d_def list_all_length)

lemma set2_in_bounds:
  assumes "has_shape grid_shape a" and "in_bounds p"
  shows "set2 a (fst p) (snd p) v = Inr (put a p v)"
proof -
  from assms(2) have x: "0 \<le> fst p" "fst p < 28" and y: "0 \<le> snd p" "snd p < 31"
    by (simp_all add: in_bounds_def GRID_WIDTH_def GRID_HEIGHT_def)
  from assms(1) have len: "length a = 28"
    by (simp add: has_shape_def grid_shape_def)
  from x have "nat (fst p) < fst grid_shape"
    by (simp add: grid_shape_def)
  with assms(1) have col: "length (a ! nat (fst p)) = 31"
    using has_shape_row [of grid_shape a "nat (fst p)"] by (simp add: grid_shape_def)
  show ?thesis
    using x y by (simp add: set2_def len col py_index_in_range put_def)
qed

lemma put_same:
  assumes "has_shape grid_shape a" and "in_bounds p"
  shows "put a p v ! nat (fst p) ! nat (snd p) = v"
proof -
  from assms(2) have x: "0 \<le> fst p" "fst p < 28" and y: "0 \<le> snd p" "snd p < 31"
    by (simp_all add: in_bounds_def GRID_WIDTH_def GRID_HEIGHT_def)
  from assms(1) have len: "length a = 28"
    by (simp add: has_shape_def grid_shape_def)
  from x assms(1) have col: "length (a ! nat (fst p)) = 31"
    using has_shape_row [of grid_shape a "nat (fst p)"] by (simp add: grid_shape_def)
  show ?thesis
    using x y by (simp add: put_def len col)
qed

lemma write_entity_in_bounds:
  assumes "has_shape grid_shape a" and "in_bounds p"
  shows "write_entity fright (i, p) a = (Inr (), put a p (entity_value fright i))"
  by (simp add: write_entity_def set2_in_bounds [OF assms])

lemma for_each_five:
  assumes "has_shape grid_shape a"
    and "in_bounds p4" and "in_bounds p3" and "in_bounds p2" and "in_bounds p1" and "in_bounds p0"
  shows "for_each (write_entity f) [(i4, p4), (i3, p3), (i2, p2), (i1, p1), (i0, p0)] a =
           (Inr (), put (put (put (put (put a p4 (entity_value f i4)) p3 (entity_value f i3))
                      p2 (entity_value f i2)) p1 (entity_value f i1)) p0 (entity_value f i0))"
proof -
  let ?a1 = "put a p4 (entity_value f i4)"
  let ?a2 = "put ?a1 p3 (entity_value f i3)"
  let ?a3 = "put ?a2 p2 (entity_value f i2)"
  let ?a4 = "put ?a3 p1 (entity_value f i1)"
  have s1: "has_shape grid_shape ?a1" using assms(1) by (rule has_shape_put)
  then have s2: "has_shape grid_shape ?a2" by (rule has_shape_put)
  then have s3: "has_shape grid_shape ?a3" by (rule has_shape_put)
  then have s4: "has_shape grid_shape ?a4" by (rule has_shape_put)
  show ?thesis
    by (simp add: write_entity_in_bounds [OF assms(1,2)] write_entity_in_bounds [OF s1 assms(3)]
        write_entity_in_bounds [OF s2 assms(4)] write_entity_in_bounds [OF s3 assms(5)]
        write_entity_in_bounds [OF s4 assms(6)])
qed

lemma np_stack_two:
  assumes "has_shape grid_shape a" and "has_shape grid_shape b"
  shows "np_stack [a, b] = Inr [a, b]"
  by (simp add: np_stack_def has_shape_shape_of [OF assms(1)] has_shape_shape_of [OF assms(2)])

lemma create_obs_A_eval:
  assumes "wf_state (game_state self)"
  shows "create_obs_A v self =
           Inr [map_2d (\<lambda>code. np_div (Fin (of_int code)) (of_int (var_c v))) (grid (game_state self)),
                put (put (put (put (put (zeros2 grid_shape)
                  (orange_current (game_state self)) (entity_value (is_frightened (game_state self)) 4))
                  (pink_current (game_state self)) (entity_value (is_frightened (game_state self)) 3))
                  (blue_current (game_state self)) (entity_value (is_frightened (game_state self)) 2))
                  (red_current (game_state self)) (entity_value (is_frightened (game_state self)) 1))
                  (pacbot_pos (game_state self)) (entity_value (is_frightened (game_state self)) 0)]"
proof -
  let ?gs = "game_state self"
  let ?f = "is_frightened ?gs"
  from assms have g: "has_shape grid_shape (grid ?gs)"
    and b: "in_bounds (pacbot_pos ?gs)" "in_bounds (red_current ?gs)" "in_bounds (pink_current ?gs)"
      "in_bounds (orange_current ?gs)" "in_bounds (blue_current ?gs)"
    by (simp_all add: wf_state_def wf_grid_has_shape)
  let ?e0 = "zeros2 grid_shape :: pyfloat list list"
  let ?e1 = "put ?e0 (orange_current ?gs) (entity_value ?f 4)"
  let ?e2 = "put ?e1 (pink_current ?gs) (entity_value ?f 3)"
  let ?e3 = "put ?e2 (blue_current ?gs) (entity_value ?f 2)"
  let ?e4 = "put ?e3 (red_current ?gs) (entity_value ?f 1)"
  let ?e5 = "put ?e4 (pacbot_pos ?gs) (entity_value ?f 0)"
  have s0: "has_shape grid_shape ?e0" by (rule has_shape_zeros2)
  then have s1: "has_shape grid_shape ?e1" by (rule has_shape_put)
  then have s2: "has_shape grid_shape ?e2" by (rule has_shape_put)
  then have s3: "has_shape grid_shape ?e3" by (rule has_shape_put)
  then have s4: "has_shape grid_shape ?e4" by (rule has_shape_put)
  then have s5: "has_shape grid_shape ?e5" by (rule has_shape_put)
  have en: "rev (enumerate 0 [pacbot_pos ?gs, red_current ?gs, blue_current ?gs, pink_current ?gs, orange_current ?gs])
      = [(4, orange_current ?gs), (3, pink_current ?gs), (2, blue_current ?gs), (1, red_current ?gs), (0, pacbot_pos ?gs)]"
    by (simp add: eval_nat_numeral)
  have loop: "for_each (write_entity ?f)
      (rev (enumerate 0 [pacbot_pos ?gs, red_current ?gs, blue_current ?gs, pink_current ?gs, orange_current ?gs]))
      ?e0 = (Inr (), ?e5)"
    unfolding en using s0 b(4) b(3) b(5) b(2) b(1) by (rule for_each_five)
  have gch: "has_shape grid_shape (map_2d (\<lambda>code. np_div (Fin (of_int code)) (of_int (var_c v))) (grid ?gs))"
    using g by (rule has_shape_map_2d)
  show ?thesis
    unfolding create_obs_A_def Let_def
    by (simp only: has_shape_asarray [OF g] and_then_Inr has_shape_shape_of [OF g] loop
        prod.case sum.case np_stack_two [OF gch s5])
qed

lemma nan_guard_id: "nan_guard r = r"
  by (simp add: nan_guard_def py_eq_def)

lemma run_ticks_wf:
  assumes "\<forall>gs. wf_state gs \<longrightarrow> wf_state (ns gs)"
  shows "wf_state gs \<Longrightarrow> wf_state (run_ticks ns n gs)"
  using assms by (induction n arbitrary: gs) simp_all

lemma new_pos_of_valid:
  assumes "action \<in> {0, 1, 2, 3, 4}" and "in_bounds p"
  shows "new_pos_of p action = Some (spec_target p action)"
  using assms
  by (auto simp: new_pos_of_def spec_target_def clamp_def in_bounds_def GRID_WIDTH_def GRID_HEIGHT_def Let_def)

lemma spec_target_in_bounds:
  assumes "in_bounds p"
  shows "in_bounds (spec_target p action)"
  using assms
  by (auto simp: spec_target_def clamp_def in_bounds_def GRID_WIDTH_def GRID_HEIGHT_def)

lemma move_one_cell_eval:
  assumes "action \<in> {0, 1, 2, 3, 4}"
    and "wf_grid (grid (game_state self))"
    and "in_bounds (pacbot_pos (game_state self))"
  shows "move_one_cell self action =
           (Inr (), self\<lparr>game_state := (game_state self)\<lparr>pacbot_pos :=
              moved_pos (grid (game_state self)) (pacbot_pos (game_state self)) action\<rparr>\<rparr>)"
proof -
  let ?p = "pacbot_pos (game_state self)"
  let ?t = "spec_target ?p action"
  have t: "new_pos_of ?p action = Some ?t"
    using assms(1,3) by (rule new_pos_of_valid)
  have tb: "in_bounds ?t"
    using assms(3) by (rule spec_target_in_bounds)
  have rd: "get2 (grid (game_state self)) (fst ?t) (snd ?t) = Inr (cell (grid (game_state self)) ?t)"
    using assms(2) tb by (rule get2_in_bounds)
  show ?thesis
    by (simp add: move_one_cell_def t rd wall_or_door_def moved_pos_def)
qed

lemma moved_pos_in_bounds: "in_bounds p \<Longrightarrow> in_bounds (moved_pos g p action)"
  by (simp add: moved_pos_def spec_target_in_bounds)

lemma edge_or_blocked_eval:
  assumes "wf_grid g" and "edge = (\<not> in_bounds p)"
  shows "edge_or_blocked edge (get2 g (fst p) (snd p)) = Inr (off_grid_or_blocked g p)"
  using assms
  by (cases "in_bounds p") (simp_all add: edge_or_blocked_def off_grid_or_blocked_def get2_in_bounds wall_or_door_def)

lemma action_mask_eval:
  assumes "wf_grid (grid (game_state self))"
    and "in_bounds (pacbot_pos (game_state self))"
  shows "action_mask self = Inr (mask_of (grid (game_state self)) (pacbot_pos (game_state self)))"
proof -
  let ?p = "pacbot_pos (game_state self)"
  let ?g = "grid (game_state self)"
  from assms(2) have b: "0 \<le> fst ?p" "fst ?p < 28" "0 \<le> snd ?p" "snd ?p < 31"
    by (simp_all add: in_bounds_def GRID_WIDTH_def GRID_HEIGHT_def)
  have e1: "(snd ?p = GRID_HEIGHT - 1) = (\<not> in_bounds (neighbour ?p 1))"
    using b by (auto simp: in_bounds_def neighbour_def GRID_WIDTH_def GRID_HEIGHT_def)
  have e2: "(snd ?p = 0) = (\<not> in_bounds (neighbour ?p 2))"
    using b by (auto simp: in_bounds_def neighbour_def GRID_WIDTH_def GRID_HEIGHT_def)
  have e3: "(fst ?p = 0) = (\<not> in_bounds (neighbour ?p 3))"
    using b by (auto simp: in_bounds_def neighbour_def GRID_WIDTH_def GRID_HEIGHT_def)
  have e4: "(fst ?p = GRID_WIDTH - 1) = (\<not> in_bounds (neighbour ?p 4))"
    using b by (auto simp: in_bounds_def neighbour_def GRID_WIDTH_def GRID_HEIGHT_def)
  have m1: "edge_or_blocked (snd ?p = GRID_HEIGHT - 1) (get2 ?g (fst ?p) (snd ?p + 1)) = Inr (off_grid_or_blocked ?g (neighbour ?p 1))"
    using edge_or_blocked_eval [OF assms(1) e1] by (simp add: neighbour_def)
  have m2: "edge_or_blocked (snd ?p = 0) (get2 ?g (fst ?p) (snd ?p - 1)) = Inr (off_grid_or_blocked ?g (neighbour ?p 2))"
    using edge_or_blocked_eval [OF assms(1) e2] by (simp add: neighbour_def)
  have m3: "edge_or_blocked (fst ?p = 0) (get2 ?g (fst ?p - 1) (snd ?p)) = Inr (off_grid_or_blocked ?g (neighbour ?p 3))"
    using edge_or_blocked_eval [OF assms(1) e3] by (simp add: neighbour_def)
  have m4: "edge_or_blocked (fst ?p = GRID_WIDTH - 1) (get2 ?g (fst ?p + 1) (snd ?p)) = Inr (off_grid_or_blocked ?g (neighbour ?p 4))"
    using edge_or_blocked_eval [OF assms(1) e4] by (simp add: neighbour_def)
  show ?thesis
    by (simp add: action_mask_def Let_def m1 m2 m3 m4 mask_of_def)
qed

lemma wf_state_moved:
  assumes "wf_state gs"
  shows "wf_state (gs\<lparr>pacbot_pos := moved_pos (grid gs) (pacbot_pos gs) action\<rparr>)"
  using assms by (simp add: wf_state_def moved_pos_in_bounds)


lemma new_pos_of_invalid:
  assumes "action \<notin> {0, 1, 2, 3, 4}"
  shows "new_pos_of p action = None"
  using assms by (simp add: new_pos_of_def)

lemma wf_open_grid: "wf_grid open_grid"
  by (simp add: wf_grid_def open_grid_def list_all_length)

lemma wf_walled_grid: "wf_grid walled_grid"
  using wf_open_grid by (simp add: walled_grid_def wf_grid_has_shape has_shape_put)

lemma cell_walled_grid_wall: "cell walled_grid (5, 6) = 1"
  using put_same [of open_grid "(5, 6)" 1] wf_open_grid
  by (simp add: cell_def walled_grid_def wf_grid_has_shape in_bounds_def GRID_WIDTH_def GRID_HEIGHT_def)

lemma wf_example_state: "wf_state example_state"
  by (simp add: wf_state_def example_state_def wf_walled_grid in_bounds_def GRID_WIDTH_def GRID_HEIGHT_def)

lemma scoring_engine_wf: "\<forall>gs. wf_state gs \<longrightarrow> wf_state (scoring_engine gs)"
  by (simp add: wf_state_def scoring_engine_def)

lemma run_ticks_scoring: "0 < n \<Longrightarrow> run_ticks scoring_engine n gs = gs\<lparr>score := 200\<rparr>"
proof (induction n arbitrary: gs)
  case 0
  then show ?case by simp
next
  case (Suc n)
  then show ?case
    by (cases n) (simp_all add: scoring_engine_def)
qed

section \<open>The shared base environment: movement and the action mask\<close>

text \<open>
  C2. For an action code in {0, 1, 2, 3, 4} and Pacman inside the 28 x 31 grid,
  \<open>move_one_cell\<close> returns without an exception; the target is the one of the mapping
  0: stay, 1: +y, 2: -y, 3: -x, 4: +x, clamped to the grid; Pacman is put on the target
  unless the target's cell code is 1 (wall) or 5 (ghost door), in which case the position
  stays; nothing else of the environment changes, and the resulting position is inside
  the grid.
\<close>

theorem move_one_cell_valid:
  assumes "action \<in> {0, 1, 2, 3, 4}"
    and "wf_grid (grid (game_state self))"
    and "in_bounds (pacbot_pos (game_state self))"
  shows "move_one_cell self action =
           (Inr (),
            self\<lparr>game_state := (game_state self)\<lparr>pacbot_pos :=
              (if wall_or_door (cell (grid (game_state self)) (spec_target (pacbot_pos (game_state self)) action))
               then pacbot_pos (game_state self)
               else spec_target (pacbot_pos (game_state self)) action)\<rparr>\<rparr>)
         \<and> in_bounds (pacbot_pos (game_state (snd (move_one_cell self action))))"
  using move_one_cell_eval [OF assms] moved_pos_in_bounds [OF assms(3)]
  by (simp add: moved_pos_def)

theorem move_one_cell_valid_witness:
  "move_one_cell example_gym 1 = (Inr (), example_gym)
   \<and> move_one_cell example_gym 3 =
       (Inr (), example_gym\<lparr>game_state := example_state\<lparr>pacbot_pos := (4, 5)\<rparr>\<rparr>)"
proof -
  have g: "wf_grid (grid (game_state example_gym))"
    by (simp add: example_gym_def example_state_def wf_walled_grid)
  have p: "in_bounds (pacbot_pos (game_state example_gym))"
    using wf_example_state by (simp add: example_gym_def wf_state_def)
  have c: "cell walled_grid (4, 5) = 3"
    by (simp add: cell_def walled_grid_def open_grid_def put_def)
  have "move_one_cell example_gym 1 = (Inr (), example_gym)"
    using move_one_cell_valid [of 1 example_gym, OF _ g p]
    by (simp add: example_gym_def example_state_def spec_target_def clamp_def GRID_HEIGHT_def
        cell_walled_grid_wall wall_or_door_def)
  moreover have "move_one_cell example_gym 3 =
       (Inr (), example_gym\<lparr>game_state := example_state\<lparr>pacbot_pos := (4, 5)\<rparr>\<rparr>)"
    using move_one_cell_valid [of 3 example_gym, OF _ g p]
    by (simp add: example_gym_def example_state_def spec_target_def clamp_def GRID_WIDTH_def
        c wall_or_door_def)
  ultimately show ?thesis
    by simp
qed

text \<open>
  C3. For Pacman inside the grid, \<open>action_mask\<close> returns five entries, each 0 or 1;
  entry 0 is 0, and for each direction i in {1, 2, 3, 4} entry i is 1 exactly when the
  neighbouring cell in that direction is off the grid or has the code 1 or 5.
\<close>

theorem action_mask_correct:
  assumes "wf_grid (grid (game_state self))"
    and "in_bounds (pacbot_pos (game_state self))"
  shows "\<exists>m. action_mask self = Inr m \<and> length m = 5 \<and> set m \<subseteq> {0, 1} \<and> m ! 0 = 0
           \<and> (\<forall>i \<in> {1, 2, 3, 4}.
                 (m ! nat i = 1) =
                   off_grid_or_blocked (grid (game_state self)) (neighbour (pacbot_pos (game_state self)) i))"
  using action_mask_eval [OF assms] by (auto simp: mask_of_def)

theorem action_mask_correct_witness:
  "\<exists>m. action_mask example_gym = Inr m \<and> m ! 1 = 1 \<and> m ! 0 = 0"
proof -
  have g: "wf_grid (grid (game_state example_gym))"
    by (simp add: example_gym_def example_state_def wf_walled_grid)
  have p: "in_bounds (pacbot_pos (game_state example_gym))"
    using wf_example_state by (simp add: example_gym_def wf_state_def)
  have "off_grid_or_blocked (grid (game_state example_gym)) (neighbour (pacbot_pos (game_state example_gym)) 1)"
    by (simp add: example_gym_def example_state_def neighbour_def off_grid_or_blocked_def
        in_bounds_def GRID_WIDTH_def GRID_HEIGHT_def cell_walled_grid_wall wall_or_door_def)
  with action_mask_correct [OF g p] show ?thesis
    by auto
qed

text \<open>
  C4, as the code has it. For an action code outside {0, 1, 2, 3, 4} no branch assigns
  \<open>new_pos\<close>, so reading it raises UnboundLocalError; nothing has been changed by
  then, so Pacman's position and the rest of the environment are as before the call.
\<close>

theorem move_one_cell_invalid:
  assumes "action \<notin> {0, 1, 2, 3, 4}"
  shows "move_one_cell self action = (Inl UnboundLocalError, self)"
  by (simp add: move_one_cell_def new_pos_of_invalid [OF assms])

theorem move_one_cell_invalid_witness:
  "move_one_cell example_gym 7 = (Inl UnboundLocalError, example_gym)"
  using move_one_cell_invalid [of 7 example_gym] by simp

text \<open>
  The claim that such an action is a silent no-op fails: the action code 5 is outside
  {0, 1, 2, 3, 4} and the call raises.
\<close>

theorem move_one_cell_raises_counterexample:
  "(5::int) \<notin> {0, 1, 2, 3, 4} \<and> move_one_cell example_gym 5 \<noteq> (Inr (), example_gym)
   \<and> fst (move_one_cell example_gym 5) = Inl UnboundLocalError"
  by (simp add: move_one_cell_def new_pos_of_def)

section \<open>Properties of Variant A\<close>

text \<open>
  C5. For a valid action on a well-formed state, with an engine that keeps the state
  well-formed and a nonzero ghost score constant, \<open>NaivePacmanGym.step\<close> returns; its
  reward is 0 when the game no longer plays after the ticks, and otherwise the score after
  the ticks minus the last seen score, divided by the ghost score constant; so the reward
  is 1 when the score grew by exactly the ghost score constant and the game still plays.
  The last seen score becomes the score after the ticks.
\<close>

theorem step_A_reward:
  assumes "action \<in> {0, 1, 2, 3, 4}"
    and "wf_state (game_state self)"
    and "\<forall>gs. wf_state gs \<longrightarrow> wf_state (ns gs)"
    and "ghost_score v \<noteq> 0"
  shows "\<exists>res self'. step_A ns v self action = (Inr res, self')
           \<and> game_state self' =
               run_ticks ns (nat (ticks_per_step self)) (game_state (snd (move_one_cell self action)))
           \<and> r_done res = (\<not> play (game_state self'))
           \<and> r_reward res =
               (if r_done res then Fin 0
                else Fin (of_int (score (game_state self') - last_score self) / of_int (ghost_score v)))
           \<and> (play (game_state self') \<and> score (game_state self') - last_score self = ghost_score v
                \<longrightarrow> r_reward res = Fin 1)
           \<and> last_score self' = score (game_state self')"
proof -
  let ?gs = "game_state self"
  let ?gs1 = "?gs\<lparr>pacbot_pos := moved_pos (grid ?gs) (pacbot_pos ?gs) action\<rparr>"
  let ?s1 = "self\<lparr>game_state := ?gs1\<rparr>"
  let ?gs2 = "run_ticks ns (nat (ticks_per_step self)) ?gs1"
  let ?s2 = "?s1\<lparr>game_state := ?gs2\<rparr>"
  let ?s3 = "?s2\<lparr>last_score := score ?gs2\<rparr>"
  let ?q = "real_of_int (score ?gs2 - last_score self) / real_of_int (ghost_score v)"
  let ?rw = "if \<not> play ?gs2 then Fin 0 else Fin ?q"
  from assms(2) have g: "wf_grid (grid ?gs)" and p: "in_bounds (pacbot_pos ?gs)"
    by (simp_all add: wf_state_def)
  have mv: "move_one_cell self action = (Inr (), ?s1)"
    using assms(1) g p by (rule move_one_cell_eval)
  have "wf_state ?gs1"
    using assms(2) by (rule wf_state_moved)
  then have wf2: "wf_state ?gs2"
    by (rule run_ticks_wf [OF assms(3)])
  then have g3: "wf_grid (grid (game_state ?s3))" and p3: "in_bounds (pacbot_pos (game_state ?s3))"
    and wf3: "wf_state (game_state ?s3)"
    by (simp_all add: wf_state_def)
  have dv: "py_truediv (score ?gs2 - last_score self) (ghost_score v) = Inr ?q"
    using assms(4) by (simp add: py_truediv_def)
  have am: "action_mask ?s3 = Inr (mask_of (grid (game_state ?s3)) (pacbot_pos (game_state ?s3)))"
    using g3 p3 by (rule action_mask_eval)
  obtain obs where ob: "create_obs_A v ?s3 = Inr obs"
    using create_obs_A_eval [OF wf3] by blast
  have st: "step_A ns v self action =
      (Inr \<lparr>r_obs = obs, r_reward = ?rw, r_done = \<not> play ?gs2,
            r_action_mask = Some (mask_of (grid (game_state ?s3)) (pacbot_pos (game_state ?s3)))\<rparr>, ?s3)"
    unfolding step_A_def
    by (simp add: mv Let_def pure_def dv nan_guard_id am [simplified] ob [simplified] del: run_ticks.simps)
  show ?thesis
    unfolding st using assms(4) by (simp add: mv)
qed

theorem step_A_reward_witness:
  "\<exists>res self'. step_A scoring_engine example_variables example_gym 1 = (Inr res, self')
     \<and> r_reward res = Fin 1 \<and> \<not> r_done res \<and> last_score self' = 200"
proof -
  have wf: "wf_state (game_state example_gym)"
    using wf_example_state by (simp add: example_gym_def)
  have gz: "ghost_score example_variables \<noteq> 0"
    by (simp add: example_variables_def)
  have mv: "move_one_cell example_gym 1 = (Inr (), example_gym)"
    using move_one_cell_eval [of 1 example_gym] wf
    by (simp add: wf_state_def moved_pos_def example_gym_def example_state_def spec_target_def
        clamp_def GRID_HEIGHT_def cell_walled_grid_wall wall_or_door_def)
  have gs: "run_ticks scoring_engine (nat (ticks_per_step example_gym)) (game_state example_gym)
      = example_state\<lparr>score := 200\<rparr>"
    by (simp add: run_ticks_scoring example_gym_def)
  from step_A_reward [of 1 example_gym scoring_engine example_variables, OF _ wf scoring_engine_wf gz]
  obtain res self' where st: "step_A scoring_engine example_variables example_gym 1 = (Inr res, self')"
    and g: "game_state self' = run_ticks scoring_engine (nat (ticks_per_step example_gym))
              (game_state (snd (move_one_cell example_gym 1)))"
    and d: "r_done res = (\<not> play (game_state self'))"
    and r: "r_reward res = (if r_done res then Fin 0
              else Fin (of_int (score (game_state self') - last_score example_gym)
                        / of_int (ghost_score example_variables)))"
    and l: "last_score self' = score (game_state self')"
    by auto
  from g have g': "game_state self' = example_state\<lparr>score := 200\<rparr>"
    by (simp add: mv gs)
  have "\<not> r_done res"
    using d by (simp add: g' example_state_def)
  moreover from this r have "r_reward res = Fin 1"
    by (simp add: g' example_gym_def example_variables_def)
  moreover have "last_score self' = 200"
    using l by (simp add: g')
  ultimately show ?thesis
    using st by blast
qed

text \<open>
  C10. In the observation of Variant A the entity channel holds 1 at Pacman's cell,
  wherever the ghosts are and whether or not they are frightened: Pacman is written last.
\<close>

theorem create_obs_A_pacman_cell:
  assumes "wf_state (game_state self)"
  shows "\<exists>obs. create_obs_A v self = Inr obs \<and> length obs = 2
           \<and> obs ! 1 ! nat (fst (pacbot_pos (game_state self))) ! nat (snd (pacbot_pos (game_state self))) = Fin 1"
proof -
  let ?gs = "game_state self"
  let ?f = "is_frightened ?gs"
  let ?e4 = "put (put (put (put (zeros2 grid_shape)
                  (orange_current ?gs) (entity_value ?f 4))
                  (pink_current ?gs) (entity_value ?f 3))
                  (blue_current ?gs) (entity_value ?f 2))
                  (red_current ?gs) (entity_value ?f 1)"
  from assms have p: "in_bounds (pacbot_pos ?gs)"
    by (simp add: wf_state_def)
  have "has_shape grid_shape ?e4"
    by (intro has_shape_put has_shape_zeros2)
  then have "put ?e4 (pacbot_pos ?gs) (entity_value ?f 0) ! nat (fst (pacbot_pos ?gs)) ! nat (snd (pacbot_pos ?gs))
      = entity_value ?f 0"
    using p by (rule put_same)
  then show ?thesis
    by (simp add: create_obs_A_eval [OF assms] entity_value_def)
qed

theorem create_obs_A_pacman_cell_witness:
  "pacbot_pos example_state = red_current example_state \<and> is_frightened example_state
   \<and> (\<exists>obs. create_obs_A example_variables example_gym = Inr obs \<and> obs ! 1 ! 5 ! 5 = Fin 1)"
proof -
  have wf: "wf_state (game_state example_gym)"
    using wf_example_state by (simp add: example_gym_def)
  from create_obs_A_pacman_cell [OF wf, of example_variables] show ?thesis
    by (auto simp: example_gym_def example_state_def)
qed

section \<open>Facts about arrays and loops\<close>

lemma for_each_inv:
  assumes "I s"
    and "\<And>x s. x \<in> set xs \<Longrightarrow> I s \<Longrightarrow> \<exists>s'. body x s = (Inr (), s') \<and> I s'"
  shows "\<exists>s'. for_each body xs s = (Inr (), s') \<and> I s'"
  using assms
proof (induction xs arbitrary: s)
  case Nil
  then show ?case by simp
next
  case (Cons x xs)
  from Cons.prems obtain s1 where b: "body x s = (Inr (), s1)" and i: "I s1"
    by (meson list.set_intros(1))
  from Cons.IH [OF i] Cons.prems(2) obtain s2 where "for_each body xs s1 = (Inr (), s2)" and "I s2"
    by (meson list.set_intros(2))
  then show ?case
    by (simp add: b)
qed

lemma has_shape3_zeros3: "has_shape3 k (zeros3 k grid_shape)"
  by (simp add: has_shape3_def zeros3_def list_all_length has_shape_zeros2)

lemma set3_in_bounds:
  assumes "has_shape3 k a" and "0 \<le> c" and "c < int k" and "in_bounds p"
  shows "set3 a c (fst p) (snd p) v = Inr (a[nat c := put (a ! nat c) p v])"
    and "has_shape3 k (a[nat c := put (a ! nat c) p v])"
proof -
  from assms(1) have len: "length a = k" and all: "list_all (has_shape grid_shape) a"
    by (simp_all add: has_shape3_def)
  from assms(2,3) len have c: "nat c < length a"
    by simp
  with all have ch: "has_shape grid_shape (a ! nat c)"
    by (simp add: list_all_length)
  show "set3 a c (fst p) (snd p) v = Inr (a[nat c := put (a ! nat c) p v])"
    using assms(2,3) by (simp add: set3_def len py_index_in_range set2_in_bounds [OF ch assms(4)])
  have "has_shape grid_shape (put (a ! nat c) p v)"
    using ch by (rule has_shape_put)
  with all c len show "has_shape3 k (a[nat c := put (a ! nat c) p v])"
    by (auto simp: has_shape3_def list_all_length nth_list_update)
qed

lemma has_shape_zip_2d:
  assumes "has_shape sh a" and "has_shape sh b"
  shows "has_shape sh (zip_2d f a b)"
  using assms by (simp add: has_shape_def zip_2d_def list_all_length)

lemma foldl_zip_2d_shape:
  assumes "has_shape sh c" and "list_all (has_shape sh) cs"
  shows "has_shape sh (foldl (zip_2d f) c cs)"
  using assms by (induction cs arbitrary: c) (simp_all add: has_shape_zip_2d)

lemma has_shape_sum0:
  assumes "list_all (has_shape sh) chans" and "chans \<noteq> []"
  shows "has_shape sh (sum0 chans)"
  using assms by (cases chans) (simp_all add: sum0_def foldl_zip_2d_shape)

lemma np_stack_ok:
  assumes "chans \<noteq> []" and "list_all (has_shape grid_shape) chans"
  shows "np_stack chans = Inr chans"
proof (cases chans)
  case Nil
  with assms(1) show ?thesis by simp
next
  case (Cons a rest)
  with assms(2) have "list_all (\<lambda>b. shape_of b = shape_of a) rest"
    by (auto simp: list_all_iff has_shape_shape_of)
  with Cons show ?thesis
    by (simp add: np_stack_def)
qed

lemma enumerate_set: "(i, x) \<in> set (enumerate n xs) \<Longrightarrow> n \<le> i \<and> i < n + length xs \<and> x \<in> set xs"
  by (auto simp: in_set_enumerate_eq)

section \<open>Properties of Variant B\<close>

lemma write_ghost_B_ok:
  assumes "has_shape3 4 ghost" and "has_shape3 3 state"
    and "i < 4" and "in_bounds p" and "wf_phase gs" and "frightened_length v \<noteq> 0"
  shows "\<exists>arrays'. write_ghost_B v gs (i, p) (ghost, state) = (Inr (), arrays')
           \<and> has_shape3 4 (fst arrays') \<and> has_shape3 3 (snd arrays')"
proof -
  let ?ghost' = "ghost[nat (int i) := put (ghost ! nat (int i)) p (Fin 1)]"
  have g1: "set3 ghost (int i) (fst p) (snd p) (Fin 1) = Inr ?ghost'" and g2: "has_shape3 4 ?ghost'"
    using set3_in_bounds [OF assms(1) _ _ assms(4), of "int i" "Fin 1"] assms(3) by simp_all
  have "\<exists>val. (if i \<noteq> 3 then Inr 1 else py_truediv (frightened_counter gs) (frightened_length v)) = Inr val"
    using assms(6) by (simp add: py_truediv_def)
  then obtain val where val: "(if i \<noteq> 3 then Inr 1 else py_truediv (frightened_counter gs) (frightened_length v)) = Inr val"
    by blast
  let ?c = "ghost_state gs - 1"
  let ?state' = "state[nat ?c := put (state ! nat ?c) p (Fin val)]"
  from assms(5) have c: "0 \<le> ?c" "?c < int 3"
    by (simp_all add: wf_phase_def)
  have s1: "set3 state ?c (fst p) (snd p) (Fin val) = Inr ?state'" and s2: "has_shape3 3 ?state'"
    using set3_in_bounds [OF assms(2) c assms(4), of "Fin val"] by simp_all
  have "write_ghost_B v gs (i, p) (ghost, state) = (Inr (), (?ghost', ?state'))"
    unfolding write_ghost_B_def Let_def by (simp only: fst_conv snd_conv g1 val s1 sum.case)
  with g2 s2 show ?thesis
    by simp
qed

lemma write_last_ghost_ok:
  assumes "has_shape3 4 a" and "i < 4" and "in_bounds p"
  shows "\<exists>a'. write_last_ghost (i, p) a = (Inr (), a') \<and> has_shape3 4 a'"
  using set3_in_bounds [OF assms(1) _ _ assms(3), of "int i" "Fin 1"] assms(2)
  by (simp add: write_last_ghost_def)

lemma ghost_positions_in_bounds: "wf_state gs \<Longrightarrow> list_all in_bounds (ghost_positions gs)"
  by (simp add: wf_state_def ghost_positions_def)

lemma length_ghost_positions: "length (ghost_positions gs) = 4"
  by (simp add: ghost_positions_def)

lemma create_obs_B_ok:
  assumes "wf_gym_B self" and "frightened_length v \<noteq> 0"
  shows "\<exists>obs. create_obs_B v self = Inr obs"
proof -
  let ?gs = "game_state self"
  from assms(1) have wf: "wf_state ?gs" and ph: "wf_phase ?gs" and lp: "in_bounds (last_pos self)"
    and ll: "length (last_ghost_pos self) \<le> 4" and la: "list_all in_bounds (last_ghost_pos self)"
    by (simp_all add: wf_gym_B_def)
  from wf have g: "has_shape grid_shape (grid ?gs)" and pp: "in_bounds (pacbot_pos ?gs)"
    by (simp_all add: wf_state_def wf_grid_has_shape)
  have sh: "shape_of (grid ?gs) = grid_shape"
    using g by (rule has_shape_shape_of)
  have "\<exists>arrays. for_each (write_ghost_B v ?gs) (enumerate 0 (ghost_positions ?gs))
            (zeros3 4 grid_shape, zeros3 3 grid_shape) = (Inr (), arrays)
          \<and> (has_shape3 4 (fst arrays) \<and> has_shape3 3 (snd arrays))"
  proof (rule for_each_inv [where I = "\<lambda>arrays. has_shape3 4 (fst arrays) \<and> has_shape3 3 (snd arrays)"])
    show "has_shape3 4 (fst (zeros3 4 grid_shape, zeros3 3 grid_shape))
        \<and> has_shape3 3 (snd (zeros3 4 grid_shape, zeros3 3 grid_shape))"
      by (simp add: has_shape3_zeros3)
  next
    fix x :: "nat \<times> pos" and s :: "pyfloat list list list \<times> pyfloat list list list"
    assume x: "x \<in> set (enumerate 0 (ghost_positions ?gs))"
      and i: "has_shape3 4 (fst s) \<and> has_shape3 3 (snd s)"
    from x have "fst x < 4" and "in_bounds (snd x)"
      using enumerate_set [of "fst x" "snd x" 0 "ghost_positions ?gs"]
        ghost_positions_in_bounds [OF wf]
      by (simp_all add: length_ghost_positions list_all_iff)
    with i ph assms(2) show "\<exists>s'. write_ghost_B v ?gs x s = (Inr (), s')
        \<and> has_shape3 4 (fst s') \<and> has_shape3 3 (snd s')"
      using write_ghost_B_ok [of "fst s" "snd s" "fst x" "snd x" ?gs v] by simp
  qed
  then obtain ghost state where l1: "for_each (write_ghost_B v ?gs) (enumerate 0 (ghost_positions ?gs))
            (zeros3 4 grid_shape, zeros3 3 grid_shape) = (Inr (), (ghost, state))"
    and gh: "has_shape3 4 ghost" and st: "has_shape3 3 state"
    by auto
  have "\<exists>a. for_each write_last_ghost (enumerate 0 (last_ghost_pos self)) (zeros3 4 grid_shape) = (Inr (), a)
          \<and> has_shape3 4 a"
  proof (rule for_each_inv [where I = "has_shape3 4"])
    show "has_shape3 4 (zeros3 4 grid_shape :: pyfloat list list list)"
      by (rule has_shape3_zeros3)
  next
    fix x :: "nat \<times> pos" and s :: "pyfloat list list list"
    assume x: "x \<in> set (enumerate 0 (last_ghost_pos self))" and i: "has_shape3 4 s"
    from x have "fst x < 4" and "in_bounds (snd x)"
      using enumerate_set [of "fst x" "snd x" 0 "last_ghost_pos self"] ll la
      by (simp_all add: list_all_iff)
    with i show "\<exists>s'. write_last_ghost x s = (Inr (), s') \<and> has_shape3 4 s'"
      using write_last_ghost_ok [of s "fst x" "snd x"] by simp
  qed
  then obtain last_ghost where l2: "for_each write_last_ghost (enumerate 0 (last_ghost_pos self))
        (zeros3 4 grid_shape) = (Inr (), last_ghost)" and lg: "has_shape3 4 last_ghost"
    by auto
  let ?z2 = "zeros3 2 grid_shape :: pyfloat list list list"
  let ?pm1 = "?z2[nat 0 := put (?z2 ! nat 0) (last_pos self) (Fin 1)]"
  let ?pm2 = "?pm1[nat 1 := put (?pm1 ! nat 1) (pacbot_pos ?gs) (Fin 1)]"
  have p1: "set3 ?z2 0 (fst (last_pos self)) (snd (last_pos self)) (Fin 1) = Inr ?pm1"
    and p1s: "has_shape3 2 ?pm1"
    using set3_in_bounds [OF has_shape3_zeros3 _ _ lp, of 0 2 "Fin 1"] by simp_all
  have p2: "set3 ?pm1 1 (fst (pacbot_pos ?gs)) (snd (pacbot_pos ?gs)) (Fin 1) = Inr ?pm2"
    and p2s: "has_shape3 2 ?pm2"
    using set3_in_bounds [OF p1s _ _ pp, of 1 "Fin 1"] by simp_all
  let ?wall = "map_2d (\<lambda>b. Fin (real_of_int b)) (map_2d (\<lambda>code. if code = 1 \<or> code = 5 then (1::int) else 0) (grid ?gs))"
  let ?fg = "map_2d (\<lambda>n. n * (if is_frightened ?gs then 1 else 0))
                (sum0 (map (map_2d (\<lambda>x. if fpos x then (1::int) else 0)) ghost))"
  let ?reward = "zip_2d (\<lambda>code fg. np_div (Fin (of_int (item_value v code + fg * ghost_score v)))
                                  (of_int (ghost_score v))) (grid ?gs) ?fg"
  have ws: "has_shape grid_shape ?wall"
    using g by (intro has_shape_map_2d)
  have "list_all (has_shape grid_shape) (map (map_2d (\<lambda>x. if fpos x then (1::int) else 0)) ghost)"
    using gh by (simp add: has_shape3_def list_all_length has_shape_map_2d)
  moreover have "map (map_2d (\<lambda>x. if fpos x then (1::int) else 0)) ghost \<noteq> []"
    using gh by (auto simp: has_shape3_def)
  ultimately have "has_shape grid_shape (sum0 (map (map_2d (\<lambda>x. if fpos x then (1::int) else 0)) ghost))"
    by (rule has_shape_sum0)
  then have "has_shape grid_shape ?fg"
    by (rule has_shape_map_2d)
  with g have rs: "has_shape grid_shape ?reward"
    by (rule has_shape_zip_2d)
  have wr: "np_stack [?wall, ?reward] = Inr [?wall, ?reward]"
    using ws rs by (rule np_stack_two)
  have "list_all (has_shape grid_shape) (concat [[?wall, ?reward], ?pm2, ghost, last_ghost, state])"
    using ws rs p2s gh lg st by (simp add: has_shape3_def)
  then have cc: "np_concatenate [[?wall, ?reward], ?pm2, ghost, last_ghost, state]
      = Inr (concat [[?wall, ?reward], ?pm2, ghost, last_ghost, state])"
    unfolding np_concatenate_def by (simp add: np_stack_ok)
  have "create_obs_B v self = Inr (concat [[?wall, ?reward], ?pm2, ghost, last_ghost, state])"
    unfolding create_obs_B_def Let_def
    by (simp only: has_shape_asarray [OF g] and_then_Inr sh l1 l2 loop_result_def prod.case sum.case
        fst_conv snd_conv p1 p2 wr cc)
  then show ?thesis
    by blast
qed

lemma run_ticks_break_wf:
  assumes "\<forall>gs. wf_game gs \<longrightarrow> wf_game (ns gs)"
  shows "wf_game gs \<Longrightarrow> wf_game (run_ticks_break ns n gs)"
  using assms by (induction n arbitrary: gs) (simp_all add: Let_def)

lemma run_ticks_game_wf:
  assumes "\<forall>gs. wf_game gs \<longrightarrow> wf_game (ns gs)"
  shows "wf_game gs \<Longrightarrow> wf_game (run_ticks ns n gs)"
  using assms by (induction n arbitrary: gs) simp_all

lemma run_ticks_Suc: "run_ticks ns (Suc k) gs = ns (run_ticks ns k gs)"
  by (induction k arbitrary: gs) simp_all

lemma run_ticks_break_char:
  "\<exists>k\<le>n. run_ticks_break ns n gs = run_ticks ns k gs
     \<and> (k < n \<longrightarrow> 0 < k \<and> \<not> play (run_ticks ns k gs))
     \<and> (\<forall>j. 0 < j \<and> j < k \<longrightarrow> play (run_ticks ns j gs))"
proof (induction n arbitrary: gs)
  case 0
  then show ?case by simp
next
  case (Suc n)
  show ?case
  proof (cases "play (ns gs)")
    case False
    then have "run_ticks_break ns (Suc n) gs = run_ticks ns 1 gs
        \<and> (1 < Suc n \<longrightarrow> 0 < (1::nat) \<and> \<not> play (run_ticks ns 1 gs))
        \<and> (\<forall>j. 0 < j \<and> j < 1 \<longrightarrow> play (run_ticks ns j gs))"
      by simp
    then show ?thesis
      by (intro exI [of _ 1]) simp
  next
    case True
    from Suc.IH [of "ns gs"] obtain k where k: "k \<le> n"
      and e: "run_ticks_break ns n (ns gs) = run_ticks ns k (ns gs)"
      and s: "k < n \<longrightarrow> 0 < k \<and> \<not> play (run_ticks ns k (ns gs))"
      and a: "\<forall>j. 0 < j \<and> j < k \<longrightarrow> play (run_ticks ns j (ns gs))"
      by blast
    have "\<forall>j. 0 < j \<and> j < Suc k \<longrightarrow> play (run_ticks ns j gs)"
    proof (intro allI impI)
      fix j
      assume j: "0 < j \<and> j < Suc k"
      then obtain i where i: "j = Suc i"
        by (cases j) simp_all
      show "play (run_ticks ns j gs)"
      proof (cases "i = 0")
        case True
        with i \<open>play (ns gs)\<close> show ?thesis by simp
      next
        case False
        with i j a show ?thesis by simp
      qed
    qed
    with k e s True show ?thesis
      by (intro exI [of _ "Suc k"]) (simp add: Let_def)
  qed
qed

lemma wf_state_moved_game:
  assumes "wf_game gs"
  shows "wf_game (gs\<lparr>pacbot_pos := moved_pos (grid gs) (pacbot_pos gs) action\<rparr>)"
  using assms by (simp add: wf_game_def wf_state_def wf_phase_def moved_pos_in_bounds)

lemma track_ghosts_B_fields [simp]:
  "game_state (track_ghosts_B ep s) = game_state s"
  "last_score (track_ghosts_B ep s) = last_score s"
  "ticks_per_step (track_ghosts_B ep s) = ticks_per_step s"
  "last_action (track_ghosts_B ep s) = last_action s"
  "last_pos (track_ghosts_B ep s) = last_pos s"
  by (simp_all add: track_ghosts_B_def Let_def)

lemma track_ghosts_B_last:
  "last_ghost_pos (track_ghosts_B ep s) = ep \<or> last_ghost_pos (track_ghosts_B ep s) = last_ghost_pos s"
  by (simp add: track_ghosts_B_def Let_def)

lemma step_B_eval:
  assumes "action \<in> {0, 1, 2, 3, 4}"
    and "wf_gym_B self"
    and "\<forall>gs. wf_game gs \<longrightarrow> wf_game (ns gs)"
    and "ghost_score v \<noteq> 0"
    and "frightened_length v \<noteq> 0"
  shows "\<exists>obs mask self'.
           step_B ns v self action =
             (Inr \<lparr>r_obs = obs,
                   r_reward = reward_B v (tick_mult_of (last_action self) action) (last_score self) (game_state self'),
                   r_done = \<not> play (game_state self'), r_action_mask = Some mask\<rparr>, self')
           \<and> game_state self' =
               run_ticks_break ns (nat (ticks_per_step self * tick_mult_of (last_action self) action))
                 ((game_state self)\<lparr>pacbot_pos :=
                    moved_pos (grid (game_state self)) (pacbot_pos (game_state self)) action\<rparr>)
           \<and> last_action self' = action \<and> last_score self' = score (game_state self')
           \<and> last_pos self' = pacbot_pos (game_state self)
           \<and> ticks_per_step self' = ticks_per_step self"
proof -
  let ?gs = "game_state self"
  let ?m = "tick_mult_of (last_action self) action"
  let ?gs1 = "?gs\<lparr>pacbot_pos := moved_pos (grid ?gs) (pacbot_pos ?gs) action\<rparr>"
  let ?gs2 = "run_ticks_break ns (nat (ticks_per_step self * ?m)) ?gs1"
  let ?s0 = "self\<lparr>last_pos := pacbot_pos ?gs\<rparr>"
  let ?s1 = "?s0\<lparr>game_state := ?gs1\<rparr>"
  let ?s3 = "?s1\<lparr>game_state := ?gs2, last_action := action\<rparr>"
  let ?s4 = "track_ghosts_B (ghost_positions ?gs1) ?s3"
  let ?s5 = "?s4\<lparr>last_score := score ?gs2\<rparr>"
  let ?q = "real_of_int (score ?gs2 - last_score self) / real_of_int (ghost_score v)"
  from assms(2) have wf: "wf_state ?gs" and ph: "wf_phase ?gs" and lp: "in_bounds (last_pos self)"
    and ll: "length (last_ghost_pos self) \<le> 4" and la: "list_all in_bounds (last_ghost_pos self)"
    by (simp_all add: wf_gym_B_def)
  from wf have g: "wf_grid (grid (game_state ?s0))" and p: "in_bounds (pacbot_pos (game_state ?s0))"
    by (simp_all add: wf_state_def)
  have mv: "move_one_cell ?s0 action = (Inr (), ?s1)"
    using move_one_cell_eval [OF assms(1) g p] by simp
  have "wf_game ?gs"
    using wf ph by (simp add: wf_game_def)
  then have wf1: "wf_game ?gs1"
    by (rule wf_state_moved_game)
  then have wf2: "wf_game ?gs2"
    by (rule run_ticks_break_wf [OF assms(3)])
  have gb: "list_all in_bounds (ghost_positions ?gs1)"
    using wf1 by (simp add: wf_game_def ghost_positions_in_bounds)
  have lg: "length (last_ghost_pos ?s4) \<le> 4 \<and> list_all in_bounds (last_ghost_pos ?s4)"
    using track_ghosts_B_last [of "ghost_positions ?gs1" ?s3] ll la gb
    by (auto simp: length_ghost_positions)
  have wfB: "wf_gym_B ?s5"
    using wf2 wf lg by (simp add: wf_gym_B_def wf_game_def wf_state_def)
  from create_obs_B_ok [OF wfB assms(5)] obtain obs where ob: "create_obs_B v ?s5 = Inr obs"
    by blast
  have am: "action_mask ?s5 = Inr (mask_of (grid ?gs2) (pacbot_pos ?gs2))"
    using action_mask_eval [of ?s5] wf2 by (simp add: wf_game_def wf_state_def)
  have dv: "py_truediv (score ?gs2 - last_score self) (ghost_score v) = Inr ?q"
    using assms(4) by (simp add: py_truediv_def)
  have st: "step_B ns v self action =
      (Inr \<lparr>r_obs = obs, r_reward = reward_B v ?m (last_score self) ?gs2,
            r_done = \<not> play ?gs2, r_action_mask = Some (mask_of (grid ?gs2) (pacbot_pos ?gs2))\<rparr>, ?s5)"
    unfolding step_B_def
    by (simp add: mv Let_def pure_def dv ob [simplified] am [simplified] reward_B_def fsub_def
        del: run_ticks_break.simps)
  show ?thesis
    unfolding st by (intro exI [of _ obs] exI [of _ "mask_of (grid ?gs2) (pacbot_pos ?gs2)"] exI [of _ ?s5]) simp
qed

lemma run_ticks_counting:
  "run_ticks counting_engine n gs = gs\<lparr>score := score gs + int n\<rparr>"
  by (induction n arbitrary: gs) (simp_all add: counting_engine_def)

lemma counting_engine_wf: "\<forall>gs. wf_game gs \<longrightarrow> wf_game (counting_engine gs)"
  by (simp add: wf_game_def wf_state_def wf_phase_def counting_engine_def)

lemma ending_engine_wf: "\<forall>gs. wf_game gs \<longrightarrow> wf_game (ending_engine gs)"
  by (simp add: wf_game_def wf_state_def wf_phase_def ending_engine_def)

lemma wf_example_gym_B: "wf_gym_B (example_gym_B\<lparr>last_action := a\<rparr>)"
  using wf_example_state
  by (simp add: wf_gym_B_def example_gym_B_def wf_phase_def ghost_positions_def wf_state_def
      in_bounds_def GRID_WIDTH_def GRID_HEIGHT_def) (simp add: example_state_def)

lemma example_moved_down:
  "moved_pos (grid example_state) (pacbot_pos example_state) 1 = (5, 5)"
  by (simp add: moved_pos_def example_state_def spec_target_def clamp_def GRID_HEIGHT_def
      cell_walled_grid_wall wall_or_door_def)

lemma example_moved_left:
  "moved_pos (grid example_state) (pacbot_pos example_state) 3 = (4, 5)"
proof -
  have "cell walled_grid (4, 5) = 3"
    by (simp add: cell_def walled_grid_def open_grid_def put_def)
  then show ?thesis
    by (simp add: moved_pos_def example_state_def spec_target_def clamp_def GRID_WIDTH_def
        wall_or_door_def)
qed

text \<open>
  C6, as the code has it. For a valid action on a well-formed environment, with an engine
  that keeps the game state well-formed and nonzero constants, \<open>SemanticChannelPacmanGym.step\<close>
  returns. Its tick multiplier is 2 exactly when the previous action is not 0 and differs
  from the action, and 1 otherwise (so also when the previous action is 0, as after a
  reset). The engine runs k ticks, at most the configured count times the multiplier; it
  runs fewer only when the game stopped playing after the k-th tick, and the game played
  after every earlier tick. The reward is 0 when the episode ended with fewer than three
  lives; otherwise it is the score delta divided by the ghost score constant, less 0.05
  exactly when the multiplier is 2. The step stores the action as the previous action of
  the next step, the score after the ticks as the last seen score, and Pacman's position
  of before the move; the configured tick count stays.
\<close>

theorem step_B_ticks_and_penalty:
  assumes "action \<in> {0, 1, 2, 3, 4}"
    and "wf_gym_B self"
    and "\<forall>gs. wf_game gs \<longrightarrow> wf_game (ns gs)"
    and "ghost_score v \<noteq> 0"
    and "frightened_length v \<noteq> 0"
  shows "\<exists>res self' k.
           step_B ns v self action = (Inr res, self')
           \<and> (tick_mult_of (last_action self) action = 2)
               = (last_action self \<noteq> 0 \<and> last_action self \<noteq> action)
           \<and> (tick_mult_of (last_action self) action = 1)
               = (last_action self = 0 \<or> last_action self = action)
           \<and> k \<le> nat (ticks_per_step self * tick_mult_of (last_action self) action)
           \<and> game_state self' =
               run_ticks ns k ((game_state self)\<lparr>pacbot_pos :=
                 moved_pos (grid (game_state self)) (pacbot_pos (game_state self)) action\<rparr>)
           \<and> (k < nat (ticks_per_step self * tick_mult_of (last_action self) action)
                \<longrightarrow> 0 < k \<and> \<not> play (game_state self'))
           \<and> (\<forall>j. 0 < j \<and> j < k \<longrightarrow>
                 play (run_ticks ns j ((game_state self)\<lparr>pacbot_pos :=
                   moved_pos (grid (game_state self)) (pacbot_pos (game_state self)) action\<rparr>)))
           \<and> r_done res = (\<not> play (game_state self'))
           \<and> r_reward res =
               (if r_done res \<and> lives (game_state self') < 3 then Fin 0
                else if tick_mult_of (last_action self) action = 2
                  then Fin (of_int (score (game_state self') - last_score self) / of_int (ghost_score v)
                            - 5 / 100)
                  else Fin (of_int (score (game_state self') - last_score self) / of_int (ghost_score v)))
           \<and> last_action self' = action
           \<and> last_score self' = score (game_state self')
           \<and> last_pos self' = pacbot_pos (game_state self)
           \<and> ticks_per_step self' = ticks_per_step self"
proof -
  let ?m = "tick_mult_of (last_action self) action"
  let ?gs1 = "(game_state self)\<lparr>pacbot_pos :=
                 moved_pos (grid (game_state self)) (pacbot_pos (game_state self)) action\<rparr>"
  let ?n = "nat (ticks_per_step self * ?m)"
  from step_B_eval [OF assms] obtain obs mask self' where
    st: "step_B ns v self action =
           (Inr \<lparr>r_obs = obs, r_reward = reward_B v ?m (last_score self) (game_state self'),
                 r_done = \<not> play (game_state self'), r_action_mask = Some mask\<rparr>, self')"
    and gs: "game_state self' = run_ticks_break ns ?n ?gs1"
    and fr: "last_action self' = action" "last_score self' = score (game_state self')"
      "last_pos self' = pacbot_pos (game_state self)" "ticks_per_step self' = ticks_per_step self"
    by blast
  from run_ticks_break_char [of ?n ns ?gs1] obtain k where k: "k \<le> ?n"
    and e: "run_ticks_break ns ?n ?gs1 = run_ticks ns k ?gs1"
    and b: "k < ?n \<longrightarrow> 0 < k \<and> \<not> play (run_ticks ns k ?gs1)"
    and a: "\<forall>j. 0 < j \<and> j < k \<longrightarrow> play (run_ticks ns j ?gs1)"
    by blast
  have m2: "(?m = 2) = (last_action self \<noteq> 0 \<and> last_action self \<noteq> action)"
    and m1: "(?m = 1) = (last_action self = 0 \<or> last_action self = action)"
    by (auto simp: tick_mult_of_def)
  show ?thesis
    apply (rule exI [of _ "\<lparr>r_obs = obs, r_reward = reward_B v ?m (last_score self) (game_state self'),
                 r_done = \<not> play (game_state self'), r_action_mask = Some mask\<rparr>"])
    apply (rule exI [of _ self'])
    apply (rule exI [of _ k])
    using st k a b m1 m2 gs e fr
    apply (simp add: reward_B_def del: run_ticks_break.simps)
    done
qed

text \<open>
  An example with the previous action 2 and the action 3: sixteen ticks instead of eight,
  the reward 16/200 - 0.05, and 3 and 16 stored as the previous action and the last seen
  score.
\<close>

theorem step_B_ticks_and_penalty_witness:
  "\<exists>res self'. step_B counting_engine example_variables (example_gym_B\<lparr>last_action := 2\<rparr>) 3 = (Inr res, self')
     \<and> score (game_state self') = 16 \<and> r_reward res = Fin (3 / 100)
     \<and> last_action self' = 3 \<and> last_score self' = 16"
proof -
  let ?g = "example_gym_B\<lparr>last_action := 2\<rparr>"
  have gz: "ghost_score example_variables \<noteq> 0" and fz: "frightened_length example_variables \<noteq> 0"
    by (simp_all add: example_variables_def)
  from step_B_ticks_and_penalty [of 3 ?g counting_engine example_variables,
      OF _ wf_example_gym_B counting_engine_wf gz fz]
  obtain res self' k where st: "step_B counting_engine example_variables ?g 3 = (Inr res, self')"
    and gs: "game_state self' = run_ticks counting_engine k ((game_state ?g)\<lparr>pacbot_pos :=
                 moved_pos (grid (game_state ?g)) (pacbot_pos (game_state ?g)) 3\<rparr>)"
    and kk: "k < nat (ticks_per_step ?g * tick_mult_of (last_action ?g) 3)
                \<longrightarrow> 0 < k \<and> \<not> play (game_state self')"
    and kl: "k \<le> nat (ticks_per_step ?g * tick_mult_of (last_action ?g) 3)"
    and dn: "r_done res = (\<not> play (game_state self'))"
    and rw: "r_reward res =
               (if r_done res \<and> lives (game_state self') < 3 then Fin 0
                else if tick_mult_of (last_action ?g) 3 = 2
                  then Fin (of_int (score (game_state self') - last_score ?g) / of_int (ghost_score example_variables)
                            - 5 / 100)
                  else Fin (of_int (score (game_state self') - last_score ?g) / of_int (ghost_score example_variables)))"
    and la: "last_action self' = 3" and ls: "last_score self' = score (game_state self')"
    by blast
  have pl: "play (game_state self')"
    by (simp add: gs run_ticks_counting example_gym_B_def example_state_def)
  have n: "nat (ticks_per_step ?g * tick_mult_of (last_action ?g) 3) = 16"
    by (simp add: example_gym_B_def tick_mult_of_def)
  from kk kl pl have k: "k = 16"
    unfolding n by linarith
  have sc: "score (game_state self') = 16"
    by (simp add: gs k run_ticks_counting example_gym_B_def example_state_def)
  have "r_reward res = Fin (3 / 100)"
    using rw dn pl
    by (simp add: sc example_gym_B_def tick_mult_of_def example_variables_def)
  with st sc la ls show ?thesis
    by simp
qed

lemma run_ticks_break_counting:
  "play gs \<Longrightarrow> run_ticks_break counting_engine n gs = gs\<lparr>score := score gs + int n\<rparr>"
  by (induction n arbitrary: gs) (simp_all add: counting_engine_def Let_def)

text \<open>
  The claim that the ticks double whenever the action differs from the previous one
  fails: after the previous action 0 the action 1 differs, and yet the engine runs eight
  ticks, not sixteen, and no penalty is subtracted.
\<close>

theorem step_B_no_doubling_counterexample:
  "last_action example_gym_B \<noteq> 1
   \<and> (\<exists>res self'. step_B counting_engine example_variables example_gym_B 1 = (Inr res, self')
        \<and> game_state self' = run_ticks counting_engine 8 (game_state example_gym_B)
        \<and> game_state self' \<noteq> run_ticks counting_engine 16 (game_state example_gym_B)
        \<and> r_reward res = Fin (8 / 200))"
proof -
  have gz: "ghost_score example_variables \<noteq> 0" and fz: "frightened_length example_variables \<noteq> 0"
    by (simp_all add: example_variables_def)
  have wf: "wf_gym_B example_gym_B"
    using wf_example_gym_B [of 0] by (simp add: example_gym_B_def)
  from step_B_eval [of 1 example_gym_B counting_engine example_variables, OF _ wf counting_engine_wf gz fz]
  obtain obs mask self' where
    st: "step_B counting_engine example_variables example_gym_B 1 =
           (Inr \<lparr>r_obs = obs,
                 r_reward = reward_B example_variables (tick_mult_of (last_action example_gym_B) 1)
                              (last_score example_gym_B) (game_state self'),
                 r_done = \<not> play (game_state self'), r_action_mask = Some mask\<rparr>, self')"
    and gs: "game_state self' =
               run_ticks_break counting_engine
                 (nat (ticks_per_step example_gym_B * tick_mult_of (last_action example_gym_B) 1))
                 ((game_state example_gym_B)\<lparr>pacbot_pos :=
                    moved_pos (grid (game_state example_gym_B)) (pacbot_pos (game_state example_gym_B)) 1\<rparr>)"
    by auto
  have gs': "game_state self' = example_state\<lparr>score := 8\<rparr>"
    unfolding gs
    by (simp add: example_gym_B_def tick_mult_of_def example_moved_down [simplified example_state_def, simplified]
        run_ticks_break_counting example_state_def del: run_ticks_break.simps)
  have r: "reward_B example_variables (tick_mult_of (last_action example_gym_B) 1)
             (last_score example_gym_B) (game_state self') = Fin (8 / 200)"
    by (simp add: gs' reward_B_def example_gym_B_def tick_mult_of_def example_variables_def
        example_state_def)
  have "game_state self' = run_ticks counting_engine 8 (game_state example_gym_B)"
    and "game_state self' \<noteq> run_ticks counting_engine 16 (game_state example_gym_B)"
    by (simp_all add: gs' run_ticks_counting example_gym_B_def example_state_def)
  with st r show ?thesis
    by (simp add: example_gym_B_def)
qed

lemma run_ticks_break_ending:
  "0 < n \<Longrightarrow> run_ticks_break ending_engine n gs = ending_engine gs"
  by (cases n) (simp_all add: Let_def ending_engine_def)

text \<open>
  C7. When the step of Variant B ends the episode (the game does not play after the
  ticks) with fewer lives than the starting life count, the reward is 0, whatever the
  score delta and the tick multiplier. The code compares the lives with the literal 3;
  the starting life count of the module \<open>variables\<close> is assumed to be 3.
\<close>

theorem step_B_terminal_reward:
  assumes "action \<in> {0, 1, 2, 3, 4}"
    and "wf_gym_B self"
    and "\<forall>gs. wf_game gs \<longrightarrow> wf_game (ns gs)"
    and "ghost_score v \<noteq> 0"
    and "frightened_length v \<noteq> 0"
    and "starting_lives v = 3"
  shows "\<exists>res self'.
           step_B ns v self action = (Inr res, self')
           \<and> game_state self' =
               run_ticks_break ns (nat (ticks_per_step self * tick_mult_of (last_action self) action))
                 ((game_state self)\<lparr>pacbot_pos :=
                    moved_pos (grid (game_state self)) (pacbot_pos (game_state self)) action\<rparr>)
           \<and> r_done res = (\<not> play (game_state self'))
           \<and> (r_done res \<and> lives (game_state self') < starting_lives v \<longrightarrow> r_reward res = Fin 0)"
proof -
  from step_B_eval [OF assms(1-5)] obtain obs mask self' where
    st: "step_B ns v self action =
           (Inr \<lparr>r_obs = obs,
                 r_reward = reward_B v (tick_mult_of (last_action self) action) (last_score self) (game_state self'),
                 r_done = \<not> play (game_state self'), r_action_mask = Some mask\<rparr>, self')"
    and gs: "game_state self' =
               run_ticks_break ns (nat (ticks_per_step self * tick_mult_of (last_action self) action))
                 ((game_state self)\<lparr>pacbot_pos :=
                    moved_pos (grid (game_state self)) (pacbot_pos (game_state self)) action\<rparr>)"
    by blast
  show ?thesis
    unfolding st using gs assms(6)
    by (intro exI [of _ "\<lparr>r_obs = obs,
                 r_reward = reward_B v (tick_mult_of (last_action self) action) (last_score self) (game_state self'),
                 r_done = \<not> play (game_state self'), r_action_mask = Some mask\<rparr>"] exI [of _ self'])
      (simp add: reward_B_def del: run_ticks_break.simps)
qed

text \<open>
  An example: the episode ends with two lives on a step that gained ten points and
  doubled its ticks; the reward is 0.
\<close>

theorem step_B_terminal_reward_witness:
  "\<exists>res self'. step_B ending_engine example_variables (example_gym_B\<lparr>last_action := 2\<rparr>) 3 = (Inr res, self')
     \<and> r_done res \<and> lives (game_state self') = 2 \<and> score (game_state self') - last_score example_gym_B = 10
     \<and> r_reward res = Fin 0"
proof -
  let ?g = "example_gym_B\<lparr>last_action := 2\<rparr>"
  have gz: "ghost_score example_variables \<noteq> 0" and fz: "frightened_length example_variables \<noteq> 0"
    and sl: "starting_lives example_variables = 3"
    by (simp_all add: example_variables_def)
  from step_B_terminal_reward [of 3 ?g ending_engine example_variables,
      OF _ wf_example_gym_B ending_engine_wf gz fz sl]
  obtain res self' where st: "step_B ending_engine example_variables ?g 3 = (Inr res, self')"
    and gs: "game_state self' =
               run_ticks_break ending_engine (nat (ticks_per_step ?g * tick_mult_of (last_action ?g) 3))
                 ((game_state ?g)\<lparr>pacbot_pos :=
                    moved_pos (grid (game_state ?g)) (pacbot_pos (game_state ?g)) 3\<rparr>)"
    and dn: "r_done res = (\<not> play (game_state self'))"
    and rw: "r_done res \<and> lives (game_state self') < starting_lives example_variables \<longrightarrow> r_reward res = Fin 0"
    by blast
  have gs': "game_state self' = ending_engine (example_state\<lparr>pacbot_pos := (4, 5)\<rparr>)"
    unfolding gs
    by (simp add: example_gym_B_def example_moved_left tick_mult_of_def run_ticks_break_ending
        del: run_ticks_break.simps)
  have "r_done res" and "lives (game_state self') = 2"
    and "score (game_state self') - last_score example_gym_B = 10"
    using dn by (simp_all add: gs' ending_engine_def example_state_def example_gym_B_def)
  moreover from this rw have "r_reward res = Fin 0"
    by (simp add: example_variables_def)
  ultimately show ?thesis
    using st by blast
qed

section \<open>Properties of Variant D\<close>

lemma mark_ghost_ok:
  assumes "has_shape grid_shape a" and "in_bounds p"
  shows "\<exists>a'. mark_ghost p a = (Inr (), a') \<and> has_shape grid_shape a'"
  using set2_in_bounds [OF assms, of "Fin 1"] has_shape_put [OF assms(1), of p "Fin 1"]
  by (simp add: mark_ghost_def)

lemma mark_ghosts_ok:
  assumes "wf_state gs"
  shows "\<exists>ghost. loop_result (for_each mark_ghost (ghost_positions gs) (zeros2 grid_shape)) = Inr ghost
           \<and> has_shape grid_shape ghost"
proof -
  have "\<exists>a. for_each mark_ghost (ghost_positions gs) (zeros2 grid_shape) = (Inr (), a)
          \<and> has_shape grid_shape a"
  proof (rule for_each_inv [where I = "has_shape grid_shape"])
    show "has_shape grid_shape (zeros2 grid_shape)"
      by (rule has_shape_zeros2)
  next
    fix x :: pos and s :: "pyfloat list list"
    assume "x \<in> set (ghost_positions gs)" and s: "has_shape grid_shape s"
    with ghost_positions_in_bounds [OF assms] have "in_bounds x"
      by (simp add: list_all_iff)
    with s show "\<exists>s'. mark_ghost x s = (Inr (), s') \<and> has_shape grid_shape s'"
      by (rule mark_ghost_ok)
  qed
  then show ?thesis
    by (auto simp: loop_result_def)
qed

lemma write_entity_D_eval:
  assumes "has_shape3 4 (entities self)" and "has_shape3 3 state"
    and "i < 4" and "in_bounds p" and "wf_phase (game_state self)"
  shows "\<exists>state'. write_entity_D (i, p) (self, state) =
           (Inr (), (self\<lparr>entities := (entities self)[i := put (entities self ! i) p (Fin 1)]\<rparr>, state'))
           \<and> has_shape3 3 state'"
proof -
  let ?ent = "(entities self)[i := put (entities self ! i) p (Fin 1)]"
  have e1: "set3 (entities self) (int i) (fst p) (snd p) (Fin 1) = Inr ?ent"
    using set3_in_bounds(1) [OF assms(1) _ _ assms(4), of "int i" "Fin 1"] assms(3) by simp
  let ?c = "ghost_state (game_state self) - 1"
  let ?state' = "state[nat ?c := put (state ! nat ?c) p (Fin 1)]"
  from assms(5) have c: "0 \<le> ?c" "?c < int 3"
    by (simp_all add: wf_phase_def)
  have s1: "set3 state ?c (fst p) (snd p) (Fin 1) = Inr ?state'" and s2: "has_shape3 3 ?state'"
    using set3_in_bounds [OF assms(2) c assms(4), of "Fin 1"] by simp_all
  have "write_entity_D (i, p) (self, state) = (Inr (), (self\<lparr>entities := ?ent\<rparr>, ?state'))"
    by (simp add: write_entity_D_def Let_def e1 s1)
  with s2 show ?thesis
    by blast
qed

lemma has_shape3_update:
  assumes "has_shape3 k a" and "i < k"
  shows "has_shape3 k (a[i := put (a ! i) p v])"
  using assms by (auto simp: has_shape3_def list_all_length nth_list_update has_shape_put)

lemma for_each_write_entity_D:
  assumes "has_shape3 4 (entities self)" and "has_shape3 3 state"
    and "wf_phase (game_state self)" and "list_all in_bounds ps" and "n + length ps \<le> 4"
  shows "\<exists>state'. for_each write_entity_D (enumerate n ps) (self, state) =
           (Inr (), (self\<lparr>entities := stamp_from n (entities self) ps\<rparr>, state'))
           \<and> has_shape3 3 state'"
  using assms
proof (induction ps arbitrary: n self state)
  case Nil
  then show ?case by simp
next
  case (Cons p ps)
  let ?ent = "(entities self)[n := put (entities self ! n) p (Fin 1)]"
  let ?self1 = "self\<lparr>entities := ?ent\<rparr>"
  from Cons.prems have n: "n < 4" and p: "in_bounds p" and ps: "list_all in_bounds ps"
    and len: "Suc n + length ps \<le> 4"
    by simp_all
  from write_entity_D_eval [OF Cons.prems(1,2) n p Cons.prems(3)] obtain state1 where
    w: "write_entity_D (n, p) (self, state) = (Inr (), (?self1, state1))" and s1: "has_shape3 3 state1"
    by blast
  have e1: "has_shape3 4 (entities ?self1)"
    using has_shape3_update [OF Cons.prems(1) n] by simp
  have ph: "wf_phase (game_state ?self1)"
    using Cons.prems(3) by simp
  from Cons.IH [OF e1 s1 ph ps len] obtain state' where
    r: "for_each write_entity_D (enumerate (Suc n) ps) (?self1, state1) =
          (Inr (), (?self1\<lparr>entities := stamp_from (Suc n) (entities ?self1) ps\<rparr>, state'))"
    and s': "has_shape3 3 state'"
    by blast
  have "for_each write_entity_D (enumerate n (p # ps)) (self, state) =
      (Inr (), (self\<lparr>entities := stamp_from n (entities self) (p # ps)\<rparr>, state'))"
    using r by (simp add: w)
  with s' show ?case
    by blast
qed

lemma has_shape3_stamp_from:
  assumes "has_shape3 4 a" and "n + length ps \<le> 4"
  shows "has_shape3 4 (stamp_from n a ps)"
  using assms
proof (induction ps arbitrary: n a)
  case Nil
  then show ?case by simp
next
  case (Cons p ps)
  from Cons.prems have "has_shape3 4 (a[n := put (a ! n) p (Fin 1)])"
    by (intro has_shape3_update) simp_all
  with Cons show ?case
    by simp
qed

lemma has_shape_dist_channel: "has_shape grid_shape (dist_channel p)"
  by (simp add: has_shape_def grid_shape_def dist_channel_def GRID_WIDTH_def GRID_HEIGHT_def list_all_length)

lemma has_shape3_halved:
  assumes "has_shape3 k a"
  shows "has_shape3 k (map (map_2d f) a)"
  using assms by (simp add: has_shape3_def list_all_length has_shape_map_2d)

lemma create_obs_D_tail_eval:
  assumes "wf_gym_D self" and "has_shape grid_shape reward"
  shows "\<exists>state. create_obs_D_tail grid_shape reward self =
           (Inr ([put (halve2 (pacman self)) (pacbot_pos (game_state self)) (Fin 1), reward,
                  dist_channel (pacbot_pos (game_state self))]
                 @ stamp_from 0 (map halve2 (entities self)) (trail_positions (game_state self))
                 @ state),
            self\<lparr>entities := stamp_from 0 (map halve2 (entities self)) (trail_positions (game_state self)),
                 pacman := put (halve2 (pacman self)) (pacbot_pos (game_state self)) (Fin 1)\<rparr>)"
proof -
  let ?gs = "game_state self"
  let ?E = "map halve2 (entities self)"
  let ?self1 = "self\<lparr>entities := ?E\<rparr>"
  let ?ps = "trail_positions ?gs"
  let ?E' = "stamp_from 0 ?E ?ps"
  let ?P = "put (halve2 (pacman self)) (pacbot_pos ?gs) (Fin 1)"
  from assms(1) have wf: "wf_state ?gs" and ph: "wf_phase ?gs"
    and pm: "has_shape grid_shape (pacman self)" and en: "has_shape3 4 (entities self)"
    by (simp_all add: wf_gym_D_def wf_game_def)
  have E: "has_shape3 4 (entities ?self1)"
    using en by (simp add: halve2_def [abs_def] has_shape3_halved)
  have psb: "list_all in_bounds ?ps"
    using wf by (simp add: trail_positions_def wf_state_def)
  have ph1: "wf_phase (game_state ?self1)"
    using ph by simp
  from for_each_write_entity_D [OF E has_shape3_zeros3 ph1 psb, of 0]
  obtain state where
    lp: "for_each write_entity_D (enumerate 0 ?ps) (?self1, zeros3 3 grid_shape) =
           (Inr (), (?self1\<lparr>entities := stamp_from 0 (entities ?self1) ?ps\<rparr>, state))"
    and st: "has_shape3 3 state"
    by (auto simp: trail_positions_def)
  have E': "has_shape3 4 ?E'"
    using E by (intro has_shape3_stamp_from) (simp_all add: trail_positions_def)
  have hp: "has_shape grid_shape (halve2 (pacman self))"
    using pm by (simp add: halve2_def has_shape_map_2d)
  have pp: "in_bounds (pacbot_pos ?gs)"
    using wf by (simp add: wf_state_def)
  have s2: "set2 (halve2 (pacman self)) (fst (pacbot_pos ?gs)) (snd (pacbot_pos ?gs)) (Fin 1) = Inr ?P"
    using hp pp by (rule set2_in_bounds)
  have P: "has_shape grid_shape ?P"
    using hp by (rule has_shape_put)
  have k1: "np_stack [?P, reward, dist_channel (pacbot_pos ?gs)] = Inr [?P, reward, dist_channel (pacbot_pos ?gs)]"
    using P assms(2) has_shape_dist_channel by (intro np_stack_ok) simp_all
  have k2: "np_concatenate [[?P, reward, dist_channel (pacbot_pos ?gs)], ?E']
      = Inr ([?P, reward, dist_channel (pacbot_pos ?gs)] @ ?E')"
    unfolding np_concatenate_def
    using P assms(2) has_shape_dist_channel [of "pacbot_pos ?gs"] E'
    by (simp add: np_stack_ok has_shape3_def)
  have k3: "np_concatenate [[?P, reward, dist_channel (pacbot_pos ?gs)] @ ?E', state]
      = Inr ([?P, reward, dist_channel (pacbot_pos ?gs)] @ ?E' @ state)"
    unfolding np_concatenate_def
    using P assms(2) has_shape_dist_channel [of "pacbot_pos ?gs"] E' st
    by (simp add: np_stack_ok has_shape3_def)
  have "create_obs_D_tail grid_shape reward self =
      (Inr ([?P, reward, dist_channel (pacbot_pos ?gs)] @ ?E' @ state),
       self\<lparr>entities := ?E', pacman := ?P\<rparr>)"
    unfolding create_obs_D_tail_def
    by (simp add: Let_def lp [simplified] s2 k1 k2 [simplified] k3 [simplified] del: stamp_from.simps)
  then show ?thesis
    by blast
qed

lemma create_obs_D_eval:
  assumes "wf_gym_D self" and "0 < ghost_score v"
  shows "\<exists>reward state. create_obs_D v self = (Inr (obs_D_of self reward state), after_obs_D self)"
proof -
  let ?gs = "game_state self"
  from assms(1) have wf: "wf_state ?gs"
    by (simp add: wf_gym_D_def wf_game_def)
  then have g: "has_shape grid_shape (grid ?gs)"
    by (simp add: wf_state_def wf_grid_has_shape)
  have sh: "shape_of (grid ?gs) = grid_shape"
    using g by (rule has_shape_shape_of)
  from mark_ghosts_ok [OF wf] obtain ghost where
    mg: "loop_result (for_each mark_ghost (ghost_positions ?gs) (zeros2 grid_shape)) = Inr ghost"
    and gh: "has_shape grid_shape ghost"
    by blast
  have ml: "math_log (ghost_score v) = Inr (ln (real_of_int (ghost_score v)))"
    using assms(2) by (simp add: math_log_def)
  let ?fg = "map_2d (\<lambda>x. (if fpos x then (1::int) else 0) * (if is_frightened ?gs then 1 else 0)) ghost"
  let ?log = "zip_2d (\<lambda>code fg. np_log (of_int (1 + item_value v code + fg * ghost_score v))) (grid ?gs) ?fg"
  let ?reward = "map_2d (\<lambda>x. np_div x (ln (real_of_int (ghost_score v)))) ?log"
  have "has_shape grid_shape ?fg"
    using gh by (rule has_shape_map_2d)
  with g have "has_shape grid_shape ?log"
    by (rule has_shape_zip_2d)
  then have rs: "has_shape grid_shape ?reward"
    by (rule has_shape_map_2d)
  from create_obs_D_tail_eval [OF assms(1) rs] obtain state where
    tl: "create_obs_D_tail grid_shape ?reward self = (Inr (obs_D_of self ?reward state), after_obs_D self)"
    by (auto simp: obs_D_of_def after_obs_D_def)
  have "create_obs_D v self = (Inr (obs_D_of self ?reward state), after_obs_D self)"
    unfolding create_obs_D_def Let_def
    by (simp only: pure_def has_shape_asarray [OF g] seq_Inr sh mg ml tl)
  then show ?thesis
    by blast
qed

lemma after_obs_D_fields [simp]:
  "game_state (after_obs_D self) = game_state self"
  "last_score (after_obs_D self) = last_score self"
  "ticks_per_step (after_obs_D self) = ticks_per_step self"
  "pacman (after_obs_D self) = put (halve2 (pacman self)) (pacbot_pos (game_state self)) (Fin 1)"
  "entities (after_obs_D self) = stamp_from 0 (map halve2 (entities self)) (trail_positions (game_state self))"
  by (simp_all add: after_obs_D_def)

lemma wf_gym_D_after:
  assumes "wf_gym_D self"
  shows "wf_gym_D (after_obs_D self)"
proof -
  from assms have pm: "has_shape grid_shape (pacman self)" and en: "has_shape3 4 (entities self)"
    by (simp_all add: wf_gym_D_def)
  have "has_shape grid_shape (put (halve2 (pacman self)) (pacbot_pos (game_state self)) (Fin 1))"
    using pm by (simp add: halve2_def has_shape_map_2d has_shape_put)
  moreover have "has_shape3 4 (stamp_from 0 (map halve2 (entities self)) (trail_positions (game_state self)))"
    using en by (intro has_shape3_stamp_from) (simp_all add: halve2_def [abs_def] has_shape3_halved trail_positions_def)
  ultimately show ?thesis
    using assms by (simp add: wf_gym_D_def)
qed

lemma step_D_eval:
  assumes "action \<in> {0, 1, 2, 3, 4}"
    and "wf_gym_D self"
    and "\<forall>gs. wf_game gs \<longrightarrow> wf_game (ns gs)"
    and "1 < ghost_score v"
    and "last_score self \<le> score (run_ticks ns (nat (ticks_per_step self))
           ((game_state self)\<lparr>pacbot_pos :=
              moved_pos (grid (game_state self)) (pacbot_pos (game_state self)) action\<rparr>))"
  shows "\<exists>obs mask self'.
           step_D ns v self action =
             (Inr \<lparr>r_obs = obs, r_reward = reward_D v (last_score self) (game_state self'),
                   r_done = \<not> play (game_state self'), r_action_mask = Some mask\<rparr>, self')
           \<and> game_state self' =
               run_ticks ns (nat (ticks_per_step self))
                 ((game_state self)\<lparr>pacbot_pos :=
                    moved_pos (grid (game_state self)) (pacbot_pos (game_state self)) action\<rparr>)
           \<and> last_score self' = score (game_state self')
           \<and> ticks_per_step self' = ticks_per_step self"
proof -
  let ?gs = "game_state self"
  let ?gs1 = "?gs\<lparr>pacbot_pos := moved_pos (grid ?gs) (pacbot_pos ?gs) action\<rparr>"
  let ?gs2 = "run_ticks ns (nat (ticks_per_step self)) ?gs1"
  let ?s1 = "self\<lparr>game_state := ?gs1\<rparr>"
  let ?s3 = "?s1\<lparr>game_state := ?gs2, last_score := score ?gs2\<rparr>"
  from assms(2) have wg: "wf_game ?gs" and pm: "has_shape grid_shape (pacman self)"
    and en: "has_shape3 4 (entities self)"
    by (simp_all add: wf_gym_D_def)
  then have g: "wf_grid (grid ?gs)" and p: "in_bounds (pacbot_pos ?gs)"
    by (simp_all add: wf_game_def wf_state_def)
  have mv: "move_one_cell self action = (Inr (), ?s1)"
    using assms(1) g p by (rule move_one_cell_eval)
  have "wf_game ?gs1"
    using wg by (rule wf_state_moved_game)
  then have wf2: "wf_game ?gs2"
    by (rule run_ticks_game_wf [OF assms(3)])
  have wfD: "wf_gym_D ?s3"
    using wf2 pm en by (simp add: wf_gym_D_def)
  have gp: "0 < ghost_score v"
    using assms(4) by simp
  from create_obs_D_eval [OF wfD gp] obtain reward state where
    ob: "create_obs_D v ?s3 = (Inr (obs_D_of ?s3 reward state), after_obs_D ?s3)"
    by blast
  have am: "action_mask ?s3 = Inr (mask_of (grid ?gs2) (pacbot_pos ?gs2))"
    using action_mask_eval [of ?s3] wf2 by (simp add: wf_game_def wf_state_def)
  have l1: "math_log (1 + score ?gs2 - last_score self) = Inr (ln (real_of_int (1 + score ?gs2 - last_score self)))"
    using assms(5) by (simp add: math_log_def)
  have l2: "math_log (ghost_score v) = Inr (ln (real_of_int (ghost_score v)))"
    using gp by (simp add: math_log_def)
  have "ln (real_of_int (ghost_score v)) \<noteq> 0"
    using assms(4) by simp
  then have dv: "py_fdiv (ln (real_of_int (1 + score ?gs2 - last_score self))) (ln (real_of_int (ghost_score v)))
      = Inr (ln (real_of_int (1 + score ?gs2 - last_score self)) / ln (real_of_int (ghost_score v)))"
    by (simp add: py_fdiv_def)
  have st: "step_D ns v self action =
      (Inr \<lparr>r_obs = obs_D_of ?s3 reward state, r_reward = reward_D v (last_score self) ?gs2,
            r_done = \<not> play ?gs2, r_action_mask = Some (mask_of (grid ?gs2) (pacbot_pos ?gs2))\<rparr>,
       after_obs_D ?s3)"
    unfolding step_D_def
    by (simp add: mv Let_def pure_def l1 [simplified] l2 dv [simplified] nan_guard_id am [simplified]
        ob [simplified] reward_D_def del: run_ticks.simps)
  show ?thesis
    unfolding st
    by (intro exI [of _ "obs_D_of ?s3 reward state"] exI [of _ "mask_of (grid ?gs2) (pacbot_pos ?gs2)"]
        exI [of _ "after_obs_D ?s3"]) simp
qed

lemma scoring_engine_wf_game: "\<forall>gs. wf_game gs \<longrightarrow> wf_game (scoring_engine gs)"
  by (simp add: wf_game_def wf_state_def wf_phase_def scoring_engine_def)

lemma idle_engine_wf_game: "\<forall>gs. wf_game gs \<longrightarrow> wf_game (idle_engine gs)"
  by (simp add: idle_engine_def)

lemma run_ticks_idle: "run_ticks idle_engine n gs = gs"
  by (induction n arbitrary: gs) (simp_all add: idle_engine_def)

lemma wf_game_example_state: "wf_game (example_state\<lparr>lives := n\<rparr>)"
  using wf_example_state
  by (simp add: wf_game_def wf_state_def wf_phase_def) (simp add: example_state_def)

lemma wf_example_gym_D: "wf_gym_D (example_gym_D\<lparr>game_state := example_state\<lparr>lives := n\<rparr>, last_score := k\<rparr>)"
  using wf_game_example_state [of n]
  by (simp add: wf_gym_D_def example_gym_D_def has_shape_put has_shape_zeros2 has_shape3_zeros3)

lemma example_moved_stay:
  "moved_pos (grid example_state) (pacbot_pos example_state) 0 = (5, 5)"
proof -
  have "cell walled_grid (5, 5) = 3"
    by (simp add: cell_def walled_grid_def open_grid_def put_def)
  then show ?thesis
    by (simp add: moved_pos_def example_state_def spec_target_def wall_or_door_def)
qed

text \<open>
  C8, as the code has it. For a valid action on a well-formed environment, with an engine
  that keeps the game state well-formed, a ghost score constant above 1 and a score that
  did not fall below the last seen score, \<open>SelfAttentionPacmanGym.step\<close> returns. Its
  reward is -1 whenever the life count after the ticks is below the starting life count
  (on the step that lost the first life and on every later step of the episode), and
  otherwise log(1 + score delta) divided by log(ghost score constant). The step stores the
  score after the ticks as the last seen score, so the delta of the next step is the gain
  of that step alone.
\<close>

theorem step_D_reward:
  assumes "action \<in> {0, 1, 2, 3, 4}"
    and "wf_gym_D self"
    and "\<forall>gs. wf_game gs \<longrightarrow> wf_game (ns gs)"
    and "1 < ghost_score v"
    and "last_score self \<le> score (run_ticks ns (nat (ticks_per_step self))
           ((game_state self)\<lparr>pacbot_pos :=
              moved_pos (grid (game_state self)) (pacbot_pos (game_state self)) action\<rparr>))"
  shows "\<exists>res self'.
           step_D ns v self action = (Inr res, self')
           \<and> game_state self' =
               run_ticks ns (nat (ticks_per_step self))
                 ((game_state self)\<lparr>pacbot_pos :=
                    moved_pos (grid (game_state self)) (pacbot_pos (game_state self)) action\<rparr>)
           \<and> r_reward res =
               (if lives (game_state self') < starting_lives v then Fin (- 1)
                else Fin (ln (real_of_int (1 + score (game_state self') - last_score self))
                          / ln (real_of_int (ghost_score v))))
           \<and> r_done res = (\<not> play (game_state self'))
           \<and> last_score self' = score (game_state self')
           \<and> ticks_per_step self' = ticks_per_step self"
proof -
  from step_D_eval [OF assms] obtain obs mask self' where
    st: "step_D ns v self action =
           (Inr \<lparr>r_obs = obs, r_reward = reward_D v (last_score self) (game_state self'),
                 r_done = \<not> play (game_state self'), r_action_mask = Some mask\<rparr>, self')"
    and gs: "game_state self' =
               run_ticks ns (nat (ticks_per_step self))
                 ((game_state self)\<lparr>pacbot_pos :=
                    moved_pos (grid (game_state self)) (pacbot_pos (game_state self)) action\<rparr>)"
    and fr: "last_score self' = score (game_state self')" "ticks_per_step self' = ticks_per_step self"
    by blast
  show ?thesis
    unfolding st using gs fr
    by (intro exI [of _ "\<lparr>r_obs = obs, r_reward = reward_D v (last_score self) (game_state self'),
                 r_done = \<not> play (game_state self'), r_action_mask = Some mask\<rparr>"] exI [of _ self'])
      (simp add: reward_D_def del: run_ticks.simps)
qed

text \<open>
  An example with all lives left: the score grows by 200 and the reward is
  log 201 / log 200.
\<close>

theorem step_D_reward_witness:
  "\<exists>res self'. step_D scoring_engine example_variables example_gym_D 1 = (Inr res, self')
     \<and> score (game_state self') = 200 \<and> r_reward res = Fin (ln 201 / ln 200)
     \<and> last_score self' = 200"
proof -
  have wf: "wf_gym_D example_gym_D"
    using wf_example_gym_D [where n = 3 and k = 0] by (simp add: example_gym_D_def example_state_def)
  have g1: "1 < ghost_score example_variables"
    by (simp add: example_variables_def)
  have rt: "run_ticks scoring_engine (nat (ticks_per_step example_gym_D))
           ((game_state example_gym_D)\<lparr>pacbot_pos :=
              moved_pos (grid (game_state example_gym_D)) (pacbot_pos (game_state example_gym_D)) 1\<rparr>)
        = example_state\<lparr>score := 200\<rparr>"
    by (simp add: example_gym_D_def example_moved_down run_ticks_scoring) (simp add: example_state_def)
  have ls: "last_score example_gym_D \<le> score (run_ticks scoring_engine (nat (ticks_per_step example_gym_D))
           ((game_state example_gym_D)\<lparr>pacbot_pos :=
              moved_pos (grid (game_state example_gym_D)) (pacbot_pos (game_state example_gym_D)) 1\<rparr>))"
    unfolding rt by (simp add: example_gym_D_def)
  from step_D_reward [of 1 example_gym_D scoring_engine example_variables, OF _ wf scoring_engine_wf_game g1 ls]
  obtain res self' where st: "step_D scoring_engine example_variables example_gym_D 1 = (Inr res, self')"
    and gs: "game_state self' = run_ticks scoring_engine (nat (ticks_per_step example_gym_D))
           ((game_state example_gym_D)\<lparr>pacbot_pos :=
              moved_pos (grid (game_state example_gym_D)) (pacbot_pos (game_state example_gym_D)) 1\<rparr>)"
    and rw: "r_reward res =
               (if lives (game_state self') < starting_lives example_variables then Fin (- 1)
                else Fin (ln (real_of_int (1 + score (game_state self') - last_score example_gym_D))
                          / ln (real_of_int (ghost_score example_variables))))"
    and ls': "last_score self' = score (game_state self')"
    by blast
  have gs': "game_state self' = example_state\<lparr>score := 200\<rparr>"
    using gs rt by simp
  have "r_reward res = Fin (ln 201 / ln 200)"
    using rw by (simp add: gs' example_state_def example_variables_def example_gym_D_def)
  with st gs' ls' show ?thesis
    by auto
qed

text \<open>
  The claim that the reward is -1 only on the step that lost a life fails: here the
  life count is 2 before the step and 2 after it, the score does not change, and the
  reward is -1 instead of log 1 / log 200 = 0.
\<close>

theorem step_D_penalty_repeats_counterexample:
  "lives (game_state (example_gym_D\<lparr>game_state := example_state\<lparr>lives := 2\<rparr>\<rparr>)) = 2
   \<and> (\<exists>res self'.
         step_D idle_engine example_variables (example_gym_D\<lparr>game_state := example_state\<lparr>lives := 2\<rparr>\<rparr>) 0
           = (Inr res, self')
         \<and> lives (game_state self') = 2 \<and> score (game_state self') = 0 \<and> r_reward res = Fin (- 1))"
proof -
  let ?G = "example_gym_D\<lparr>game_state := example_state\<lparr>lives := 2\<rparr>\<rparr>"
  have wf: "wf_gym_D ?G"
    using wf_example_gym_D [where n = 2 and k = 0] by (simp add: example_gym_D_def)
  have g1: "1 < ghost_score example_variables"
    by (simp add: example_variables_def)
  have mp: "moved_pos (grid (game_state ?G)) (pacbot_pos (game_state ?G)) 0 = (5, 5)"
    using example_moved_stay by (simp add: example_state_def)
  have ls: "last_score ?G \<le> score (run_ticks idle_engine (nat (ticks_per_step ?G))
           ((game_state ?G)\<lparr>pacbot_pos := moved_pos (grid (game_state ?G)) (pacbot_pos (game_state ?G)) 0\<rparr>))"
    by (simp add: run_ticks_idle example_gym_D_def example_state_def)
  from step_D_eval [of 0 ?G idle_engine example_variables, OF _ wf idle_engine_wf_game g1 ls]
  obtain obs mask self' where
    st: "step_D idle_engine example_variables ?G 0 =
           (Inr \<lparr>r_obs = obs, r_reward = reward_D example_variables (last_score ?G) (game_state self'),
                 r_done = \<not> play (game_state self'), r_action_mask = Some mask\<rparr>, self')"
    and gs: "game_state self' = run_ticks idle_engine (nat (ticks_per_step ?G))
           ((game_state ?G)\<lparr>pacbot_pos := moved_pos (grid (game_state ?G)) (pacbot_pos (game_state ?G)) 0\<rparr>)"
    by auto
  have l: "lives (game_state self') = 2" and s: "score (game_state self') = 0"
    unfolding gs by (simp_all add: run_ticks_idle example_state_def)
  have "reward_D example_variables (last_score ?G) (game_state self') = Fin (- 1)"
    by (simp add: reward_D_def l example_variables_def)
  with st l s show ?thesis
    by simp
qed

section \<open>The guard against non-finite rewards\<close>



text \<open>
  The guard \<open>if reward == float("Nan"): reward = 0\<close> changes no value: NaN is
  equal to nothing, so the comparison is never true.
\<close>

lemma nan_guard_keeps_nan: "nan_guard NaN = NaN"
  by (simp add: nan_guard_def py_eq_def)











lemma track_ghosts_C_fields [simp]:
  "game_state (track_ghosts_C ep s) = game_state s"
  "last_score (track_ghosts_C ep s) = last_score s"
  "ticks_per_step (track_ghosts_C ep s) = ticks_per_step s"
  by (simp_all add: track_ghosts_C_def Let_def)








section \<open>What \<open>create_obs\<close> keeps\<close>

lemma length_stamp_from:
  "length (stamp_from n a ps) = length a"
  by (induction ps arbitrary: n a) simp_all

text \<open>
  C9, as the code has it. In Variants A, B and C \<open>create_obs\<close> assigns to no
  attribute of the environment, so the model gives it the observation as its only result.
  The observation is the same for two environments with the same game state (in Variant B:
  with the same game state, \<open>last_pos\<close> and \<open>last_ghost_pos\<close>), whatever else the
  environments hold; so two calls in a row return the same observation. In Variant D
  \<open>create_obs\<close> changes the environment: on a well-formed environment it returns, leaves
  the game state as it is, stores the halved \<open>self.pacman\<close> with 1 at Pacman's cell
  and the halved \<open>self.entities\<close> with 1 at each ghost's cell, and these stored arrays
  are channel 0 and channels 3 to 6 of the observation.
\<close>

theorem create_obs_persistence:
  "(game_state a = game_state a' \<longrightarrow> create_obs_A v a = create_obs_A v a')
   \<and> (game_state b = game_state b' \<and> last_pos b = last_pos b' \<and> last_ghost_pos b = last_ghost_pos b'
        \<longrightarrow> create_obs_B v b = create_obs_B v b')
   \<and> (game_state c = game_state c' \<longrightarrow> create_obs_C v t c = create_obs_C v t c')
   \<and> (wf_gym_D d \<and> 0 < ghost_score v \<longrightarrow>
        (\<exists>obs. create_obs_D v d = (Inr obs, after_obs_D d)
           \<and> game_state (after_obs_D d) = game_state d
           \<and> pacman (after_obs_D d) = put (halve2 (pacman d)) (pacbot_pos (game_state d)) (Fin 1)
           \<and> entities (after_obs_D d)
               = stamp_from 0 (map halve2 (entities d)) (trail_positions (game_state d))
           \<and> obs ! 0 = pacman (after_obs_D d)
           \<and> take 4 (drop 3 obs) = entities (after_obs_D d)))"
proof (intro conjI impI)
  assume "game_state a = game_state a'"
  then show "create_obs_A v a = create_obs_A v a'"
    by (simp add: create_obs_A_def)
next
  assume "game_state b = game_state b' \<and> last_pos b = last_pos b' \<and> last_ghost_pos b = last_ghost_pos b'"
  then show "create_obs_B v b = create_obs_B v b'"
    by (simp add: create_obs_B_def)
next
  assume "game_state c = game_state c'"
  then show "create_obs_C v t c = create_obs_C v t c'"
    by (simp add: create_obs_C_def)
next
  assume d: "wf_gym_D d \<and> 0 < ghost_score v"
  then obtain reward state where
    ob: "create_obs_D v d = (Inr (obs_D_of d reward state), after_obs_D d)"
    using create_obs_D_eval [of d v] by blast
  from d have "has_shape3 4 (entities d)"
    by (simp add: wf_gym_D_def)
  then have "length (stamp_from 0 (map halve2 (entities d)) (trail_positions (game_state d))) = 4"
    by (simp add: length_stamp_from has_shape3_def)
  then have "take 4 (drop 3 (obs_D_of d reward state)) = entities (after_obs_D d)"
    by (simp add: obs_D_of_def)
  moreover have "obs_D_of d reward state ! 0 = pacman (after_obs_D d)"
    by (simp add: obs_D_of_def)
  ultimately show "\<exists>obs. create_obs_D v d = (Inr obs, after_obs_D d)
           \<and> game_state (after_obs_D d) = game_state d
           \<and> pacman (after_obs_D d) = put (halve2 (pacman d)) (pacbot_pos (game_state d)) (Fin 1)
           \<and> entities (after_obs_D d)
               = stamp_from 0 (map halve2 (entities d)) (trail_positions (game_state d))
           \<and> obs ! 0 = pacman (after_obs_D d)
           \<and> take 4 (drop 3 obs) = entities (after_obs_D d)"
    using ob by simp
qed

lemma example_trail_first: "pacman (after_obs_D example_gym_D) ! 5 ! 4 = Fin (1 / 2)"
  by (simp add: example_gym_D_def example_state_def put_def halve2_def map_2d_def zeros2_def grid_shape_def)

lemma example_trail_second: "pacman (after_obs_D (after_obs_D example_gym_D)) ! 5 ! 4 = Fin (1 / 4)"
  by (simp add: example_gym_D_def example_state_def put_def halve2_def map_2d_def zeros2_def grid_shape_def)

text \<open>
  An example for each variant; in Variant D the cell (5, 4) of the stored trail goes
  from 1 to 1/2.
\<close>

theorem create_obs_persistence_witness:
  "create_obs_A example_variables example_gym = create_obs_A example_variables (example_gym\<lparr>last_score := 7\<rparr>)
   \<and> create_obs_B example_variables example_gym_B
       = create_obs_B example_variables (example_gym_B\<lparr>last_action := 3\<rparr>)
   \<and> create_obs_C example_variables example_tables example_gym
       = create_obs_C example_variables example_tables (example_gym\<lparr>ticks_per_step := 1\<rparr>)
   \<and> (\<exists>obs. create_obs_D example_variables example_gym_D = (Inr obs, after_obs_D example_gym_D)
         \<and> obs ! 0 ! 5 ! 4 = Fin (1 / 2) \<and> pacman example_gym_D ! 5 ! 4 = Fin 1)"
proof -
  have wf: "wf_gym_D example_gym_D"
    using wf_example_gym_D [where n = 3 and k = 0] by (simp add: example_gym_D_def example_state_def)
  have g0: "0 < ghost_score example_variables"
    by (simp add: example_variables_def)
  have p: "pacman example_gym_D ! 5 ! 4 = Fin 1"
    by (simp add: example_gym_D_def put_def zeros2_def grid_shape_def)
  note t = create_obs_persistence [of example_gym "example_gym\<lparr>last_score := 7\<rparr>" example_variables
      example_gym_B "example_gym_B\<lparr>last_action := 3\<rparr>" example_gym "example_gym\<lparr>ticks_per_step := 1\<rparr>"
      example_tables example_gym_D]
  from t wf g0 obtain obs where
    "create_obs_D example_variables example_gym_D = (Inr obs, after_obs_D example_gym_D)"
    and "obs ! 0 = pacman (after_obs_D example_gym_D)"
    by blast
  then have "\<exists>obs. create_obs_D example_variables example_gym_D = (Inr obs, after_obs_D example_gym_D)
         \<and> obs ! 0 ! 5 ! 4 = Fin (1 / 2) \<and> pacman example_gym_D ! 5 ! 4 = Fin 1"
    using example_trail_first p by auto
  moreover from t have "create_obs_A example_variables example_gym
      = create_obs_A example_variables (example_gym\<lparr>last_score := 7\<rparr>)"
    by simp
  moreover from t have "create_obs_B example_variables example_gym_B
       = create_obs_B example_variables (example_gym_B\<lparr>last_action := 3\<rparr>)"
    by simp
  moreover from t have "create_obs_C example_variables example_tables example_gym
       = create_obs_C example_variables example_tables (example_gym\<lparr>ticks_per_step := 1\<rparr>)"
    by simp
  ultimately show ?thesis
    by blast
qed

text \<open>
  The claim that \<open>create_obs\<close> persists nothing and that two calls in a row return
  the same observation fails in Variant D: with a trail on (5, 4) and Pacman on (5, 5),
  the first call changes \<open>self.pacman\<close> and returns 1/2 on (5, 4), and the second call,
  on the same game state, returns 1/4 there.
\<close>

theorem create_obs_D_persists_counterexample:
  "\<exists>obs1 s1 obs2 s2.
     create_obs_D example_variables example_gym_D = (Inr obs1, s1)
     \<and> game_state s1 = game_state example_gym_D \<and> pacman s1 \<noteq> pacman example_gym_D
     \<and> create_obs_D example_variables s1 = (Inr obs2, s2)
     \<and> obs1 ! 0 ! 5 ! 4 = Fin (1 / 2) \<and> obs2 ! 0 ! 5 ! 4 = Fin (1 / 4) \<and> obs1 \<noteq> obs2"
proof -
  have wf: "wf_gym_D example_gym_D"
    using wf_example_gym_D [where n = 3 and k = 0] by (simp add: example_gym_D_def example_state_def)
  have g0: "0 < ghost_score example_variables"
    by (simp add: example_variables_def)
  from create_obs_D_eval [OF wf g0] obtain r1 st1 where
    c1: "create_obs_D example_variables example_gym_D
           = (Inr (obs_D_of example_gym_D r1 st1), after_obs_D example_gym_D)"
    by blast
  from create_obs_D_eval [OF wf_gym_D_after [OF wf] g0] obtain r2 st2 where
    c2: "create_obs_D example_variables (after_obs_D example_gym_D)
           = (Inr (obs_D_of (after_obs_D example_gym_D) r2 st2), after_obs_D (after_obs_D example_gym_D))"
    by blast
  have o1: "obs_D_of example_gym_D r1 st1 ! 0 = pacman (after_obs_D example_gym_D)"
    and o2: "obs_D_of (after_obs_D example_gym_D) r2 st2 ! 0 = pacman (after_obs_D (after_obs_D example_gym_D))"
    by (simp_all add: obs_D_of_def)
  have v1: "obs_D_of example_gym_D r1 st1 ! 0 ! 5 ! 4 = Fin (1 / 2)"
    unfolding o1 by (rule example_trail_first)
  have v2: "obs_D_of (after_obs_D example_gym_D) r2 st2 ! 0 ! 5 ! 4 = Fin (1 / 4)"
    unfolding o2 by (rule example_trail_second)
  have ne: "obs_D_of example_gym_D r1 st1 \<noteq> obs_D_of (after_obs_D example_gym_D) r2 st2"
    using v1 v2 by auto
  have "pacman example_gym_D ! 5 ! 4 = Fin 1"
    by (simp add: example_gym_D_def put_def zeros2_def grid_shape_def)
  with example_trail_first have pn: "pacman (after_obs_D example_gym_D) \<noteq> pacman example_gym_D"
    by auto
  show ?thesis
    using c1 c2 v1 v2 ne pn by (intro exI [of _ "obs_D_of example_gym_D r1 st1"]
        exI [of _ "after_obs_D example_gym_D"] exI [of _ "obs_D_of (after_obs_D example_gym_D) r2 st2"]
        exI [of _ "after_obs_D (after_obs_D example_gym_D)"]) simp
qed

end
